theory Spec2Isabelle
  imports Complex_Main
begin

section \<open>Strings: Python's \<open>str.lower\<close>, \<open>str.upper\<close> and \<open>hex\<close>\<close>

text \<open>
  Addresses, token ids and outcome labels are ASCII, so \<open>lower\<close> and \<open>upper\<close> map the
  26 ASCII letters and leave every other character alone.
\<close>

definition lower_char :: "char \<Rightarrow> char" where
  "lower_char c =
     (case map_of (zip ''ABCDEFGHIJKLMNOPQRSTUVWXYZ'' ''abcdefghijklmnopqrstuvwxyz'') c of
        Some l \<Rightarrow> l | None \<Rightarrow> c)"

definition upper_char :: "char \<Rightarrow> char" where
  "upper_char c =
     (case map_of (zip ''abcdefghijklmnopqrstuvwxyz'' ''ABCDEFGHIJKLMNOPQRSTUVWXYZ'') c of
        Some u \<Rightarrow> u | None \<Rightarrow> c)"

definition lower :: "string \<Rightarrow> string" where
  "lower s = map lower_char s"

definition upper :: "string \<Rightarrow> string" where
  "upper s = map upper_char s"

definition hex_digit :: "nat \<Rightarrow> char" where
  "hex_digit d = ''0123456789abcdef'' ! d"

fun hex_digits :: "nat \<Rightarrow> string" where
  "hex_digits n =
     (if n < 16 then [hex_digit n] else hex_digits (n div 16) @ [hex_digit (n mod 16)])"

declare hex_digits.simps [simp del]

text \<open>Python's \<open>hex(n)\<close>: \<open>0x\<close> and the digits, with a leading minus sign below zero.\<close>

definition hex :: "int \<Rightarrow> string" where
  "hex n = (if n < 0 then ''-0x'' @ hex_digits (nat (- n)) else ''0x'' @ hex_digits (nat n))"

section \<open>Numbers: Python's \<open>Decimal\<close> quotient and \<open>float\<close>\<close>

text \<open>
  A \<open>Decimal\<close> value that is not negative, as a fraction: numerator and denominator.
  \<open>Decimal(n)\<close> of an integer is exact.
\<close>

type_synonym decimal = "nat \<times> nat"

definition Decimal :: "nat \<Rightarrow> decimal" where
  "Decimal n = (n, 1)"

text \<open>The integer nearest to \<open>n / d\<close>, a tie going to the even one.\<close>

definition half_even :: "nat \<Rightarrow> nat \<Rightarrow> nat" where
  "half_even n d =
     (let q = n div d; r = n mod d
      in if 2 * r < d then q
         else if d < 2 * r then q + 1
         else if even q then q else q + 1)"

text \<open>
  Multiply the numerator by the base until it reaches the bound, and the denominator
  while the quotient has more than the wanted digits; both count the steps.
\<close>

function scale_up :: "nat \<Rightarrow> nat \<Rightarrow> nat \<Rightarrow> nat \<Rightarrow> nat \<times> nat" where
  "scale_up b bound n k =
     (if 2 \<le> b \<and> 0 < n \<and> n < bound then scale_up b bound (n * b) (k + 1) else (n, k))"
  by pat_completeness auto
termination
proof (relation "measure (\<lambda>(b, bound, n, k). bound - n)")
  show "wf (measure (\<lambda>(b, bound, n, k). bound - n))" by simp
next
  fix b bound n k :: nat
  assume a: "2 \<le> b \<and> 0 < n \<and> n < bound"
  then have "n * 2 \<le> n * b" by simp
  with a have "n < n * b" by linarith
  with a have "bound - n * b < bound - n" by (intro diff_less_mono2) simp_all
  then show "((b, bound, n * b, k + 1), (b, bound, n, k))
               \<in> measure (\<lambda>(b, bound, n, k). bound - n)"
    by simp
qed

function scale_down :: "nat \<Rightarrow> nat \<Rightarrow> nat \<Rightarrow> nat \<Rightarrow> nat \<Rightarrow> nat \<times> nat" where
  "scale_down b hi n d k =
     (if 2 \<le> b \<and> 0 < d \<and> 0 < hi \<and> d * hi \<le> n then scale_down b hi n (d * b) (k + 1)
      else (d, k))"
  by pat_completeness auto
termination
proof (relation "measure (\<lambda>(b, hi, n, d, k). n + 1 - d * hi)")
  show "wf (measure (\<lambda>(b, hi, n, d, k). n + 1 - d * hi))" by simp
next
  fix b hi n d k :: nat
  assume a: "2 \<le> b \<and> 0 < d \<and> 0 < hi \<and> d * hi \<le> n"
  then have "d * hi * 2 \<le> d * hi * b" by simp
  moreover from a have "0 < d * hi" by simp
  ultimately have "d * hi < d * b * hi" by (simp add: mult.commute mult.left_commute)
  with a have "n + 1 - d * b * hi < n + 1 - d * hi" by (intro diff_less_mono2) simp_all
  then show "((b, hi, n, d * b, k + 1), (b, hi, n, d, k))
               \<in> measure (\<lambda>(b, hi, n, d, k). n + 1 - d * hi)"
    by simp
qed

declare scale_up.simps [simp del]

declare scale_down.simps [simp del]

text \<open>
  The fraction \<open>n / d\<close> rounded to \<open>p\<close> significant digits in base \<open>b\<close>, ties to even:
  the quotient is scaled by a power of the base into \<open>b ^ (p - 1) \<le> q < b ^ p\<close>, rounded
  to an integer and scaled back.
\<close>

definition round_sig :: "nat \<Rightarrow> nat \<Rightarrow> nat \<Rightarrow> nat \<Rightarrow> decimal" where
  "round_sig b p n d =
     (if n = 0 then (0, 1)
      else if n < d * b ^ (p - 1)
      then (case scale_up b (d * b ^ (p - 1)) n 0 of (n', k) \<Rightarrow> (half_even n' d, b ^ k))
      else (case scale_down b (b ^ p) n d 0 of (d', k) \<Rightarrow> (half_even n d' * b ^ k, 1)))"

text \<open>
  \<open>Decimal(a) / Decimal(b)\<close> in the default context: 28 significant digits, rounding
  half to even. A zero divisor raises (\<open>DivisionByZero\<close>, or \<open>InvalidOperation\<close> for
  \<open>0 / 0\<close>), which is \<open>None\<close> here.
\<close>

definition decimal_div :: "nat \<Rightarrow> nat \<Rightarrow> decimal option" where
  "decimal_div a b = (if b = 0 then None else Some (round_sig 10 28 a b))"

text \<open>
  \<open>float(x)\<close> of a \<open>Decimal\<close>: the nearest double, 53 significant bits and ties to even,
  as a rational number. The amounts are \<open>uint256\<close>, so a value that is not zero lies
  between \<open>2 ^ -256\<close> and \<open>2 ^ 256\<close>, where the exponent of a double has no limit to hit.
\<close>

definition float_of_decimal :: "decimal \<Rightarrow> rat" where
  "float_of_decimal x =
     (case x of (n, d) \<Rightarrow> (case round_sig 2 53 n d of (n', d') \<Rightarrow> of_nat n' / of_nat d'))"

section \<open>The store (\<open>db/schema.py\<close>, \<open>db/store.py\<close>)\<close>

datatype error = StorageError

text \<open>
  The dictionary \<open>process_market_data\<close> returns and \<open>upsert_market\<close> reads with
  \<open>.get\<close>: a missing key and a \<open>None\<close> value are both \<open>None\<close> here, and SQL
  \<open>NULL\<close> in the table.
\<close>

record market_data =
  slug :: "string option"
  condition_id :: "string option"
  question_id :: "string option"
  yes_token_id :: "string option"
  no_token_id :: "string option"
  status :: "string option"

text \<open>A row of \<open>markets\<close>: the columns above and the \<open>AUTOINCREMENT\<close> key \<open>id\<close>.\<close>

record market = market_data +
  id' :: int

text \<open>
  A row of \<open>trades\<close>, without the surrogate key \<open>id\<close>, which the storage engine assigns
  and no operation of the indexer reads. \<open>price\<close> and \<open>size\<close> are doubles, held as the
  rational numbers they stand for.
\<close>

record trade_row =
  tx_hash :: string
  log_index :: int
  market_id :: int
  maker :: string
  taker :: string
  side :: string
  outcome :: string
  price :: rat
  size' :: rat
  timestamp :: int

text \<open>
  The dictionary \<open>decode_and_process_log\<close> returns: the ten columns and two keys more,
  which \<open>insert_trades\<close> does not bind.
\<close>

record trade = trade_row +
  token_id :: string
  block_number :: int

text \<open>
  The database: the rows of \<open>markets\<close> in rowid order, the largest rowid \<open>markets\<close> ever
  held (\<open>sqlite_sequence\<close>), the rows of \<open>trades\<close> in insertion order, and \<open>sync_state\<close>
  as a map from its primary key to the value.
\<close>

record db =
  markets :: "market list"
  markets_seq :: int
  trades :: "trade_row list"
  sync_state :: "string \<rightharpoonup> int"

text \<open>\<open>create_tables\<close> on a new file: empty tables, and \<open>last_block\<close> initialised to 0.\<close>

definition init_db :: db where
  "init_db = \<lparr>markets = [], markets_seq = 0, trades = [],
             sync_state = [''last_block'' \<mapsto> 0]\<rparr>"

subsection \<open>\<open>upsert_market\<close>\<close>

text \<open>\<open>SELECT id FROM markets WHERE condition_id = ?\<close>: a \<open>NULL\<close> on either side never matches.\<close>

definition select_by_condition_id :: "market list \<Rightarrow> string option \<Rightarrow> market option" where
  "select_by_condition_id ms cid =
     (case cid of None \<Rightarrow> None | Some c \<Rightarrow> find (\<lambda>m. condition_id m = Some c) ms)"

definition update_market :: "market_data \<Rightarrow> int \<Rightarrow> market \<Rightarrow> market" where
  "update_market md mid m =
     (if id' m = mid
      then m\<lparr>slug := slug md, question_id := question_id md,
             yes_token_id := yes_token_id md, no_token_id := no_token_id md,
             status := status md\<rparr>
      else m)"

text \<open>The next \<open>AUTOINCREMENT\<close> key: one more than the largest the table ever held.\<close>

definition next_id :: "db \<Rightarrow> int" where
  "next_id s = max (markets_seq s) (foldr max (map id' (markets s)) 0) + 1"

definition new_market :: "market_data \<Rightarrow> int \<Rightarrow> market" where
  "new_market md i =
     \<lparr>slug = slug md, condition_id = condition_id md, question_id = question_id md,
      yes_token_id = yes_token_id md, no_token_id = no_token_id md, status = status md,
      id' = i\<rparr>"

text \<open>
  The first argument says whether the storage engine fails on this call; the source then
  rolls back and re-raises.
\<close>

definition upsert_market :: "bool \<Rightarrow> market_data \<Rightarrow> db \<Rightarrow> (error + unit) \<times> db" where
  "upsert_market fault md s =
     (if fault then (Inl StorageError, s)
      else case select_by_condition_id (markets s) (condition_id md) of
             Some result \<Rightarrow>
               (Inr (), s\<lparr>markets := map (update_market md (id' result)) (markets s)\<rparr>)
           | None \<Rightarrow>
               (Inr (), s\<lparr>markets := markets s @ [new_market md (next_id s)],
                           markets_seq := next_id s\<rparr>))"

subsection \<open>\<open>insert_trades\<close>\<close>

definition row_of :: "trade \<Rightarrow> trade_row" where
  "row_of t = trade_row.truncate t"

text \<open>
  \<open>INSERT OR IGNORE\<close> of one row under the unique index on \<open>(tx_hash, log_index)\<close>.
\<close>

definition key_exists :: "trade_row list \<Rightarrow> string \<Rightarrow> int \<Rightarrow> bool" where
  "key_exists rows h i = list_ex (\<lambda>r. tx_hash r = h \<and> log_index r = i) rows"

definition insert_or_ignore :: "trade_row list \<Rightarrow> trade \<Rightarrow> trade_row list" where
  "insert_or_ignore rows t =
     (if key_exists rows (tx_hash t) (log_index t) then rows else rows @ [row_of t])"

text \<open>
  \<open>executemany\<close> and \<open>commit\<close> inside one transaction. The fault \<open>Some k\<close> is a storage
  failure after \<open>k\<close> statements (at the commit when the batch is shorter); \<open>None\<close> is a
  healthy engine.
\<close>

fun executemany :: "nat option \<Rightarrow> trade list \<Rightarrow> trade_row list \<Rightarrow> error + trade_row list" where
  "executemany fault [] rows = (case fault of None \<Rightarrow> Inr rows | Some k \<Rightarrow> Inl StorageError)"
| "executemany fault (t # ts) rows =
     (case fault of
        None \<Rightarrow> executemany None ts (insert_or_ignore rows t)
      | Some 0 \<Rightarrow> Inl StorageError
      | Some (Suc k) \<Rightarrow> executemany (Some k) ts (insert_or_ignore rows t))"

definition insert_trades :: "nat option \<Rightarrow> trade list \<Rightarrow> db \<Rightarrow> (error + unit) \<times> db" where
  "insert_trades fault trades_list s =
     (if trades_list = [] then (Inr (), s)
      else case executemany fault trades_list (trades s) of
             Inl e \<Rightarrow> (Inl e, s)
           | Inr rows \<Rightarrow> (Inr (), s\<lparr>trades := rows\<rparr>))"

subsection \<open>The checkpoint\<close>

definition update_sync_state :: "bool \<Rightarrow> int \<Rightarrow> db \<Rightarrow> (error + unit) \<times> db" where
  "update_sync_state fault block s =
     (if fault then (Inl StorageError, s)
      else (Inr (), s\<lparr>sync_state := (sync_state s)(''last_block'' \<mapsto> block)\<rparr>))"

definition get_sync_state :: "db \<Rightarrow> int" where
  "get_sync_state s = (case sync_state s ''last_block'' of Some v \<Rightarrow> v | None \<Rightarrow> 0)"

subsection \<open>\<open>fetch_market_by_token_id\<close>\<close>

text \<open>
  \<open>fetchone\<close> of \<open>SELECT * FROM markets WHERE yes_token_id = ? OR no_token_id = ?\<close>,
  which has no \<open>ORDER BY\<close>. With the two indexes of \<open>create_tables\<close> SQLite answers
  the \<open>OR\<close> from the index on \<open>yes_token_id\<close> first and from the index on
  \<open>no_token_id\<close> after it, each in rowid order: the row returned is the first whose
  \<open>yes_token_id\<close> is the token, and without one the first whose \<open>no_token_id\<close> is.
\<close>

definition fetch_market_by_token_id :: "db \<Rightarrow> string \<Rightarrow> market option" where
  "fetch_market_by_token_id s tok =
     (case find (\<lambda>m. yes_token_id m = Some tok) (markets s) of
        Some m \<Rightarrow> Some m
      | None \<Rightarrow> find (\<lambda>m. no_token_id m = Some tok) (markets s))"

section \<open>Market discovery (\<open>indexer/market_discovery.py\<close>)\<close>

text \<open>
  The \<open>outcomes\<close> value after the optional \<open>json.loads\<close>: a list of labels, or the string
  itself when \<open>json.loads\<close> rejected it.
\<close>

datatype outcomes_value = OutcomeList "string list" | OutcomeStr string

text \<open>
  One market of a Gamma API event. \<open>active\<close>, \<open>closed\<close> and \<open>resolved\<close> are the truth
  values of the fields. \<open>clobTokenIds\<close> is the value after the optional \<open>json.loads\<close> and
  Python's \<open>int\<close> on each element: \<open>None\<close> for a string \<open>json.loads\<close> rejects, and
  \<open>None\<close> as an element where \<open>int\<close> raises.
\<close>

record raw_market =
  rm_slug :: "string option"
  conditionId :: "string option"
  questionID :: "string option"
  questionId :: "string option"
  active :: bool
  closed' :: bool
  resolved :: bool
  clobTokenIds :: "int option list option"
  outcomes :: outcomes_value

text \<open>Python's truth value of an optional string: \<open>None\<close> and the empty string are false.\<close>

definition truthy :: "string option \<Rightarrow> bool" where
  "truthy v = (case v of None \<Rightarrow> False | Some s \<Rightarrow> s \<noteq> [])"

definition lower_if_truthy :: "string option \<Rightarrow> string option" where
  "lower_if_truthy v = (if truthy v then map_option lower v else v)"

definition market_status :: "raw_market \<Rightarrow> string" where
  "market_status market =
     (let status1 = (if active market then ''ACTIVE'' else ''CLOSED'');
          status2 = (if closed' market then ''CLOSED'' else status1)
      in if resolved market then ''RESOLVED'' else status2)"

text \<open>The list comprehension \<open>[hex(int(tid)).lower() for tid in clob_token_ids]\<close>.\<close>

fun convert_token_ids :: "int option list \<Rightarrow> string list option" where
  "convert_token_ids [] = Some []"
| "convert_token_ids (None # tids) = None"
| "convert_token_ids (Some n # tids) =
     (case convert_token_ids tids of None \<Rightarrow> None | Some hs \<Rightarrow> Some (lower (hex n) # hs))"

definition outcome_labels :: "outcomes_value \<Rightarrow> string list" where
  "outcome_labels v = (case v of OutcomeList labels \<Rightarrow> labels | OutcomeStr s \<Rightarrow> map (\<lambda>c. [c]) s)"

text \<open>The loop over \<open>enumerate(outcomes)\<close>; the state is \<open>(yes_token_id, no_token_id)\<close>.\<close>

fun map_outcomes ::
  "(string \<times> string) list \<Rightarrow> string option \<times> string option \<Rightarrow> string option \<times> string option"
where
  "map_outcomes [] acc = acc"
| "map_outcomes ((token, label) # rest) (yes, no) =
     (if upper label = ''YES'' then map_outcomes rest (Some token, no)
      else if upper label = ''NO'' then map_outcomes rest (yes, Some token)
      else map_outcomes rest (yes, no))"

definition process_market_data :: "raw_market \<Rightarrow> market_data option" where
  "process_market_data market =
     (let question_id0 = (if truthy (questionID market) then questionID market
                          else questionId market)
      in case clobTokenIds market of
           None \<Rightarrow> None
         | Some tids \<Rightarrow>
            (case convert_token_ids tids of
               None \<Rightarrow> None
             | Some clob_token_ids \<Rightarrow>
                (let labels = outcome_labels (outcomes market)
                 in if clob_token_ids = [] then None
                    else if labels = [] then None
                    else if length clob_token_ids = length labels
                    then (case map_outcomes (zip clob_token_ids labels) (None, None) of
                            (yes, no) \<Rightarrow>
                              Some \<lparr>slug = rm_slug market,
                                    condition_id = lower_if_truthy (conditionId market),
                                    question_id = lower_if_truthy question_id0,
                                    yes_token_id = yes, no_token_id = no,
                                    status = Some (market_status market)\<rparr>)
                    else None)))"

definition validate_market_tokens :: "market_data \<Rightarrow> bool" where
  "validate_market_tokens market_data = True"

text \<open>
  \<open>fetch_markets_by_slug\<close>: the HTTP answer is \<open>None\<close> when \<open>requests\<close> raises, otherwise
  the list of events, each the list of its markets.
\<close>

definition fetch_markets_by_slug :: "(string \<Rightarrow> raw_market list list option) \<Rightarrow> string \<Rightarrow> raw_market list" where
  "fetch_markets_by_slug http_get slug_arg =
     (case http_get slug_arg of
        None \<Rightarrow> []
      | Some data \<Rightarrow> if data = [] then [] else concat data)"

text \<open>The loop of \<open>discover_and_store_markets\<close>; an exception of \<open>upsert_market\<close> leaves it.\<close>

fun store_markets :: "bool \<Rightarrow> raw_market list \<Rightarrow> nat \<Rightarrow> db \<Rightarrow> (error + nat) \<times> db" where
  "store_markets fault [] count s = (Inr count, s)"
| "store_markets fault (market_raw # rest) count s =
     (case process_market_data market_raw of
        None \<Rightarrow> store_markets fault rest count s
      | Some md \<Rightarrow>
          if validate_market_tokens md
          then (case upsert_market fault md s of
                  (Inl e, s1) \<Rightarrow> (Inl e, s1)
                | (Inr u, s1) \<Rightarrow> store_markets fault rest (count + 1) s1)
          else store_markets fault rest count s)"

section \<open>The indexer (\<open>indexer/run.py\<close>)\<close>

text \<open>The arguments of a decoded \<open>OrderFilled\<close> event; the five data fields are \<open>uint256\<close>.\<close>

record order_filled =
  orderHash :: string
  ev_maker :: string
  ev_taker :: string
  makerAssetId :: nat
  takerAssetId :: nat
  makerAmountFilled :: nat
  takerAmountFilled :: nat
  fee :: nat

text \<open>
  A log as the RPC node returns it. \<open>transactionHash\<close> is the hash as \<open>to_hex\<close> prints
  it, and \<open>event\<close> is what \<open>process_log\<close> of web3 makes of the topics and the data:
  \<open>None\<close> when it raises.
\<close>

record raw_log =
  address :: string
  transactionHash :: string
  logIndex :: int
  blockNumber :: int
  event :: "order_filled option"

text \<open>
  The collaborators: the RPC node (\<open>None\<close> is an exception of the call), the Gamma API
  and the faults of the storage engine.
\<close>

record env =
  get_logs :: "int \<Rightarrow> int \<Rightarrow> raw_log list option"
  get_block :: "int \<Rightarrow> int option"
  http_get :: "string \<Rightarrow> raw_market list list option"
  upsert_fault :: bool
  insert_fault :: "nat option"
  sync_fault :: bool

text \<open>The calls the indexer makes on the store and on discovery, in order.\<close>

datatype call =
  FetchMarket string
| Discover string
| InsertTrades
| UpdateSyncState int

record indexer =
  store :: db
  block_timestamp_cache :: "int \<rightharpoonup> int"
  calls :: "call list"

definition get_block_timestamp :: "env \<Rightarrow> int \<Rightarrow> indexer \<Rightarrow> int \<times> indexer" where
  "get_block_timestamp e bn st =
     (case block_timestamp_cache st bn of
        Some ts \<Rightarrow> (ts, st)
      | None \<Rightarrow>
         (case get_block e bn of
            Some ts \<Rightarrow> (ts, st\<lparr>block_timestamp_cache := (block_timestamp_cache st)(bn \<mapsto> ts)\<rparr>)
          | None \<Rightarrow> (0, st)))"

definition discover_and_store_markets :: "env \<Rightarrow> string \<Rightarrow> db \<Rightarrow> (error + nat) \<times> db" where
  "discover_and_store_markets e sl s =
     store_markets (upsert_fault e) (fetch_markets_by_slug (http_get e) sl) 0 s"

text \<open>
  Lines 135 to 150, the price, the token and the side. \<open>Decimal\<close> division raises on a
  zero divisor and the bare \<open>except\<close> sets the price to \<open>Decimal(0)\<close>.
\<close>

definition price_token_side :: "order_filled \<Rightarrow> decimal \<times> nat \<times> string" where
  "price_token_side args =
     (if makerAssetId args = 0
      then ((case decimal_div (makerAmountFilled args) (takerAmountFilled args) of
               Some q \<Rightarrow> q | None \<Rightarrow> Decimal 0),
            takerAssetId args, ''BUY'')
      else ((case decimal_div (takerAmountFilled args) (makerAmountFilled args) of
               Some q \<Rightarrow> q | None \<Rightarrow> Decimal 0),
            makerAssetId args, ''SELL''))"

text \<open>Lines 156 to 164: the lookup, and on a miss with a slug the discovery and one retry.\<close>

definition find_market :: "env \<Rightarrow> string \<Rightarrow> string option \<Rightarrow> indexer \<Rightarrow> (error + market option) \<times> indexer" where
  "find_market e token_id_hex event_slug st =
     (let st1 = st\<lparr>calls := calls st @ [FetchMarket token_id_hex]\<rparr>
      in case fetch_market_by_token_id (store st1) token_id_hex of
           Some m \<Rightarrow> (Inr (Some m), st1)
         | None \<Rightarrow>
            (case event_slug of
               None \<Rightarrow> (Inr None, st1)
             | Some sl \<Rightarrow>
                if sl = [] then (Inr None, st1)
                else (case discover_and_store_markets e sl (store st1) of
                        (Inl err, s2) \<Rightarrow>
                          (Inl err, st1\<lparr>store := s2, calls := calls st1 @ [Discover sl]\<rparr>)
                      | (Inr n, s2) \<Rightarrow>
                          (Inr (fetch_market_by_token_id s2 token_id_hex),
                           st1\<lparr>store := s2,
                               calls := calls st1 @ [Discover sl, FetchMarket token_id_hex]\<rparr>))))"

definition outcome_of :: "market \<Rightarrow> string \<Rightarrow> string" where
  "outcome_of m token_id_hex =
     (if yes_token_id m = Some token_id_hex then ''YES''
      else if no_token_id m = Some token_id_hex then ''NO''
      else [])"

definition decode_and_process_log ::
  "env \<Rightarrow> raw_log \<Rightarrow> string option \<Rightarrow> indexer \<Rightarrow> (error + trade option) \<times> indexer"
where
  "decode_and_process_log e lg event_slug st =
     (case event lg of
        None \<Rightarrow> (Inr None, st)
      | Some args \<Rightarrow>
         if lower (ev_taker args) = lower (address lg) then (Inr None, st)
         else
          (case price_token_side args of
             (p, token_id_int, sd) \<Rightarrow>
              (let token_id_hex = lower (hex (int token_id_int))
               in case find_market e token_id_hex event_slug st of
                    (Inl err, st1) \<Rightarrow> (Inl err, st1)
                  | (Inr None, st1) \<Rightarrow> (Inr None, st1)
                  | (Inr (Some m), st1) \<Rightarrow>
                     (case get_block_timestamp e (blockNumber lg) st1 of
                        (ts, st2) \<Rightarrow>
                          (Inr (Some \<lparr>tx_hash = transactionHash lg,
                                      log_index = logIndex lg,
                                      market_id = id' m,
                                      maker = ev_maker args,
                                      taker = ev_taker args,
                                      side = sd,
                                      outcome = outcome_of m token_id_hex,
                                      price = float_of_decimal p,
                                      size' = float_of_decimal
                                                (if sd = ''BUY''
                                                 then Decimal (takerAmountFilled args)
                                                 else Decimal (makerAmountFilled args)),
                                      timestamp = ts,
                                      token_id = token_id_hex,
                                      block_number = blockNumber lg\<rparr>),
                           st2)))))"

text \<open>
  The loop of \<open>run_indexer\<close> over the logs: an exception of one log is logged and the loop
  goes on with the next.
\<close>

fun process_logs :: "env \<Rightarrow> string option \<Rightarrow> raw_log list \<Rightarrow> indexer \<Rightarrow> trade list \<times> indexer" where
  "process_logs e event_slug [] st = ([], st)"
| "process_logs e event_slug (lg # rest) st =
     (case decode_and_process_log e lg event_slug st of
        (Inl err, st1) \<Rightarrow> process_logs e event_slug rest st1
      | (Inr None, st1) \<Rightarrow> process_logs e event_slug rest st1
      | (Inr (Some t), st1) \<Rightarrow>
          (case process_logs e event_slug rest st1 of (ts, st2) \<Rightarrow> (t # ts, st2)))"

definition run_indexer ::
  "env \<Rightarrow> int \<Rightarrow> int \<Rightarrow> string option \<Rightarrow> indexer \<Rightarrow> (error + trade list) \<times> indexer"
where
  "run_indexer e from_block to_block event_slug st =
     (case get_logs e from_block to_block of
        None \<Rightarrow> (Inr [], st)
      | Some logs \<Rightarrow>
         (case process_logs e event_slug logs st of
            (processed_trades, st1) \<Rightarrow>
              if processed_trades \<noteq> [] then
                (case insert_trades (insert_fault e) processed_trades (store st1) of
                   (Inl err, s2) \<Rightarrow>
                     (Inl err, st1\<lparr>store := s2, calls := calls st1 @ [InsertTrades]\<rparr>)
                 | (Inr u, s2) \<Rightarrow>
                    (case update_sync_state (sync_fault e) to_block s2 of
                       (Inl err, s3) \<Rightarrow>
                         (Inl err, st1\<lparr>store := s3,
                              calls := calls st1 @ [InsertTrades, UpdateSyncState to_block]\<rparr>)
                     | (Inr u, s3) \<Rightarrow>
                         (Inr processed_trades, st1\<lparr>store := s3,
                              calls := calls st1 @ [InsertTrades, UpdateSyncState to_block]\<rparr>)))
              else (Inr processed_trades, st1)))"

section \<open>Properties of the tables\<close>

text \<open>The values of the unique index of \<open>trades\<close>, row by row.\<close>

definition row_keys :: "trade_row list \<Rightarrow> (string \<times> int) list" where
  "row_keys rows = map (\<lambda>r. (tx_hash r, log_index r)) rows"


text \<open>No two rows of \<open>markets\<close> hold the same non-null \<open>condition_id\<close>.\<close>

definition condition_ids_unique :: "market list \<Rightarrow> bool" where
  "condition_ids_unique ms = distinct (List.map_filter condition_id ms)"

text \<open>The calls of a trace that write to the store.\<close>

fun is_write :: "call \<Rightarrow> bool" where
  "is_write (FetchMarket tok) = False"
| "is_write (Discover sl) = False"
| "is_write InsertTrades = True"
| "is_write (UpdateSyncState b) = True"

definition writes :: "call list \<Rightarrow> call list" where
  "writes cs = filter is_write cs"

section \<open>Scenarios\<close>

text \<open>A binary market of the Gamma API with the outcome tokens 78 (No) and 77 (Yes).\<close>

definition gamma_rain :: raw_market where
  "gamma_rain =
     \<lparr>rm_slug = Some ''will-it-rain'', conditionId = Some ''0xABC'',
      questionID = Some ''0xQ1'', questionId = None,
      active = True, closed' = False, resolved = False,
      clobTokenIds = Some [Some 78, Some 77],
      outcomes = OutcomeList [''No'', ''Yes'']\<rparr>"

definition row_rain :: market where
  "row_rain =
     \<lparr>slug = Some ''will-it-rain'', condition_id = Some ''0xabc'',
      question_id = Some ''0xq1'', yes_token_id = Some ''0x4d'',
      no_token_id = Some ''0x4e'', status = Some ''ACTIVE'', id' = 1\<rparr>"

text \<open>Two markets the Gamma API can return: one token twice, and a label that is neither.\<close>

definition gamma_twin :: raw_market where
  "gamma_twin =
     \<lparr>rm_slug = Some ''twin'', conditionId = Some ''0xA'',
      questionID = None, questionId = None,
      active = True, closed' = False, resolved = False,
      clobTokenIds = Some [Some 7, Some 7],
      outcomes = OutcomeList [''Yes'', ''No'']\<rparr>"

definition gamma_maybe :: raw_market where
  "gamma_maybe =
     \<lparr>rm_slug = Some ''maybe'', conditionId = Some ''0xB'',
      questionID = None, questionId = None,
      active = True, closed' = False, resolved = False,
      clobTokenIds = Some [Some 7, Some 8],
      outcomes = OutcomeList [''Yes'', ''Maybe'']\<rparr>"

text \<open>The database after discovery of \<open>gamma_rain\<close>, with the checkpoint at a given block.\<close>

definition db_rain :: "int \<Rightarrow> db" where
  "db_rain b =
     \<lparr>markets = [row_rain], markets_seq = 1, trades = [],
      sync_state = [''last_block'' \<mapsto> b]\<rparr>"

definition fill :: "string \<Rightarrow> nat \<Rightarrow> nat \<Rightarrow> nat \<Rightarrow> nat \<Rightarrow> order_filled" where
  "fill tk maker_asset taker_asset maker_amount taker_amount =
     \<lparr>orderHash = ''0x01'', ev_maker = ''0xMaker'', ev_taker = tk,
      makerAssetId = maker_asset, takerAssetId = taker_asset,
      makerAmountFilled = maker_amount, takerAmountFilled = taker_amount, fee = 0\<rparr>"

definition log_at :: "int \<Rightarrow> order_filled \<Rightarrow> raw_log" where
  "log_at i args =
     \<lparr>address = ''0xExchange'', transactionHash = ''0xaa'', logIndex = i,
      blockNumber = 150, event = Some args\<rparr>"

text \<open>A buy and a sell of token 77, a fill with a zero divisor, a self-fill, an unknown token.\<close>

definition log_buy :: raw_log where
  "log_buy = log_at 0 (fill ''0xTaker'' 0 77 500000 1000000)"

definition log_sell :: raw_log where
  "log_sell = log_at 1 (fill ''0xTaker'' 77 0 2000000 1000000)"

definition log_zero :: raw_log where
  "log_zero = log_at 2 (fill ''0xTaker'' 0 77 500000 0)"

definition log_self :: raw_log where
  "log_self = log_at 3 (fill ''0xEXCHANGE'' 0 77 500000 1000000)"

definition log_unknown :: raw_log where
  "log_unknown = log_at 4 (fill ''0xTaker'' 0 99 500000 1000000)"

text \<open>
  The collaborators of a scenario: what \<open>get_logs\<close> answers, the markets of the one event
  the Gamma API returns, and the fault of \<open>insert_trades\<close>.
\<close>

definition world :: "raw_log list option \<Rightarrow> raw_market list \<Rightarrow> nat option \<Rightarrow> env" where
  "world logs gamma fault =
     \<lparr>get_logs = (\<lambda>from_block to_block. logs),
      get_block = (\<lambda>bn. Some 1700000000),
      http_get = (\<lambda>sl. Some [gamma]),
      upsert_fault = False, insert_fault = fault, sync_fault = False\<rparr>"

definition indexer_on :: "db \<Rightarrow> indexer" where
  "indexer_on s = \<lparr>store = s, block_timestamp_cache = Map.empty, calls = []\<rparr>"

text \<open>The indexer on a new database after \<open>log_buy\<close> with the slug \<open>ev\<close>.\<close>

definition indexer_after_buy :: indexer where
  "indexer_after_buy =
     \<lparr>store = db_rain 0, block_timestamp_cache = [150 \<mapsto> 1700000000],
      calls = [FetchMarket ''0x4d'', Discover ''ev'', FetchMarket ''0x4d'']\<rparr>"

definition trade_buy :: trade where
  "trade_buy =
     \<lparr>tx_hash = ''0xaa'', log_index = 0, market_id = 1, maker = ''0xMaker'',
      taker = ''0xTaker'', side = ''BUY'', outcome = ''YES'', price = 1 / 2,
      size' = 1000000, timestamp = 1700000000, token_id = ''0x4d'', block_number = 150\<rparr>"

definition trade_sell :: trade where
  "trade_sell =
     \<lparr>tx_hash = ''0xaa'', log_index = 1, market_id = 1, maker = ''0xMaker'',
      taker = ''0xTaker'', side = ''SELL'', outcome = ''YES'', price = 1 / 2,
      size' = 2000000, timestamp = 1700000000, token_id = ''0x4d'', block_number = 150\<rparr>"

text \<open>
  Two fills whose values a double does not hold: the quotient 1 / 3, and the amount
  \<open>2 ^ 53 + 1\<close>.
\<close>

definition log_third :: raw_log where
  "log_third = log_at 5 (fill ''0xTaker'' 0 77 1000000 3000000)"

definition log_big :: raw_log where
  "log_big = log_at 6 (fill ''0xTaker'' 0 77 9007199254740993 9007199254740993)"

definition trade_third :: trade where
  "trade_third =
     \<lparr>tx_hash = ''0xaa'', log_index = 5, market_id = 1, maker = ''0xMaker'',
      taker = ''0xTaker'', side = ''BUY'', outcome = ''YES'',
      price = 6004799503160661 / 18014398509481984,
      size' = 3000000, timestamp = 1700000000, token_id = ''0x4d'', block_number = 150\<rparr>"

definition trade_big :: trade where
  "trade_big =
     \<lparr>tx_hash = ''0xaa'', log_index = 6, market_id = 1, maker = ''0xMaker'',
      taker = ''0xTaker'', side = ''BUY'', outcome = ''YES'', price = 1,
      size' = 9007199254740992, timestamp = 1700000000, token_id = ''0x4d'',
      block_number = 150\<rparr>"

section \<open>Unfolding the model on concrete inputs\<close>

lemmas string_defs = lower_def lower_char_def upper_def upper_char_def hex_def hex_digit_def
  hex_digits.simps

lemmas store_defs = init_db_def select_by_condition_id_def update_market_def next_id_def
  new_market_def upsert_market_def row_of_def trade_row.truncate_def key_exists_def
  insert_or_ignore_def insert_trades_def update_sync_state_def get_sync_state_def
  fetch_market_by_token_id_def

lemmas discovery_defs = truthy_def lower_if_truthy_def market_status_def outcome_labels_def
  process_market_data_def validate_market_tokens_def fetch_markets_by_slug_def
  discover_and_store_markets_def

lemmas indexer_defs = get_block_timestamp_def decimal_div_def price_token_side_def
  find_market_def outcome_of_def decode_and_process_log_def run_indexer_def Let_def

lemmas scenario_defs = gamma_rain_def row_rain_def gamma_twin_def gamma_maybe_def db_rain_def
  fill_def log_at_def log_buy_def log_sell_def log_zero_def log_self_def log_unknown_def
  world_def indexer_on_def indexer_after_buy_def trade_buy_def trade_sell_def
  log_third_def log_big_def trade_third_def trade_big_def

lemmas rounding_defs = Decimal_def half_even_def scale_up.simps scale_down.simps round_sig_def
  float_of_decimal_def Let_def

section \<open>Idempotent insertion\<close>

lemma executemany_healthy: "executemany None ts rows = Inr (foldl insert_or_ignore rows ts)"
  by (induction ts arbitrary: rows) simp_all

lemma key_exists_append:
  "key_exists (rows @ rs) h i = (key_exists rows h i \<or> key_exists rs h i)"
  by (simp add: key_exists_def list_ex_iff) blast

lemma key_exists_insert_or_ignore:
  "key_exists rows h i \<Longrightarrow> key_exists (insert_or_ignore rows t) h i"
  by (simp add: insert_or_ignore_def key_exists_append)

lemma key_exists_row_of: "key_exists [row_of t] (tx_hash t) (log_index t)"
  by (simp add: key_exists_def row_of_def trade_row.truncate_def)

lemma key_exists_after_insert: "key_exists (insert_or_ignore rows t) (tx_hash t) (log_index t)"
  by (simp add: insert_or_ignore_def key_exists_append key_exists_row_of)

lemma key_exists_foldl:
  "key_exists rows h i \<Longrightarrow> key_exists (foldl insert_or_ignore rows ts) h i"
  by (induction ts arbitrary: rows) (simp_all add: key_exists_insert_or_ignore)

lemma inserted_keys_exist:
  "t \<in> set ts \<Longrightarrow> key_exists (foldl insert_or_ignore rows ts) (tx_hash t) (log_index t)"
proof (induction ts arbitrary: rows)
  case Nil
  then show ?case by simp
next
  case (Cons a ts)
  show ?case
  proof (cases "t = a")
    case True
    then show ?thesis by (simp add: key_exists_foldl key_exists_after_insert)
  next
    case False
    with Cons show ?thesis by simp
  qed
qed

lemma foldl_all_present:
  "list_all (\<lambda>t. key_exists rows (tx_hash t) (log_index t)) ts
   \<Longrightarrow> foldl insert_or_ignore rows ts = rows"
  by (induction ts) (simp_all add: insert_or_ignore_def)

lemma foldl_twice:
  "foldl insert_or_ignore (foldl insert_or_ignore rows ts) ts = foldl insert_or_ignore rows ts"
  by (rule foldl_all_present) (simp add: list_all_iff inserted_keys_exist)

lemma key_exists_row_keys: "key_exists rows h i = ((h, i) \<in> set (row_keys rows))"
  by (auto simp: key_exists_def row_keys_def list_ex_iff)

lemma distinct_insert_or_ignore:
  "distinct (row_keys rows) \<Longrightarrow> distinct (row_keys (insert_or_ignore rows t))"
  by (auto simp: insert_or_ignore_def key_exists_row_keys)
     (simp_all add: row_keys_def row_of_def trade_row.truncate_def)

lemma distinct_foldl:
  "distinct (row_keys rows) \<Longrightarrow> distinct (row_keys (foldl insert_or_ignore rows ts))"
  by (induction ts arbitrary: rows) (simp_all add: distinct_insert_or_ignore)

text \<open>
  Claim C2. With a healthy storage engine \<open>insert_trades\<close> raises nothing, also when keys
  of the batch are in the table already or occur twice in the batch; a second call with
  the same list returns without error and leaves the database as the first call left it,
  so the rows of \<open>trades\<close> and their number are the same; and when the keys
  \<open>(tx_hash, log_index)\<close> of the table were pairwise different before, they still are.
\<close>

theorem insert_trades_idempotent:
  "fst (insert_trades None ts s) = Inr ()
   \<and> insert_trades None ts (snd (insert_trades None ts s))
       = (Inr (), snd (insert_trades None ts s))
   \<and> length (trades (snd (insert_trades None ts (snd (insert_trades None ts s)))))
       = length (trades (snd (insert_trades None ts s)))
   \<and> (distinct (row_keys (trades s))
        \<longrightarrow> distinct (row_keys (trades (snd (insert_trades None ts s)))))"
  by (simp add: insert_trades_def executemany_healthy foldl_twice distinct_foldl)

theorem insert_trades_idempotent_witness:
  "distinct (row_keys (trades (db_rain 0)))
   \<and> trades (snd (insert_trades None [trade_buy, trade_buy] (db_rain 0))) = [row_of trade_buy]
   \<and> insert_trades None [trade_buy, trade_buy]
         (snd (insert_trades None [trade_buy, trade_buy] (db_rain 0)))
       = (Inr (), snd (insert_trades None [trade_buy, trade_buy] (db_rain 0)))
   \<and> distinct (row_keys (trades (snd (insert_trades None [trade_buy, trade_buy] (db_rain 0)))))"
  using insert_trades_idempotent [of "[trade_buy, trade_buy]" "db_rain 0"]
  by (simp add: insert_trades_def insert_or_ignore_def key_exists_def db_rain_def row_of_def
      trade_row.truncate_def trade_buy_def row_keys_def)

section \<open>Rounding\<close>

lemma float_of_zero: "float_of_decimal (Decimal 0) = 0"
  by (simp add: float_of_decimal_def Decimal_def round_sig_def)

lemma scale_up_spec:
  "2 \<le> b \<Longrightarrow> 0 < n \<Longrightarrow> scale_up b bound n k = (n', k')
   \<Longrightarrow> k \<le> k' \<and> n' = n * b ^ (k' - k) \<and> bound \<le> n'"
proof (induction b bound n k rule: scale_up.induct)
  case (1 b bound n k)
  show ?case
  proof (cases "n < bound")
    case True
    with "1.prems" have r: "scale_up b bound (n * b) (k + 1) = (n', k')"
      by (simp add: scale_up.simps [of b bound n k])
    from "1.prems" have "0 < n * b" by simp
    with "1.IH" [OF _ "1.prems"(1) _ r] True "1.prems"
    have h: "k + 1 \<le> k' \<and> n' = n * b * b ^ (k' - (k + 1)) \<and> bound \<le> n'" by simp
    then have "k' - k = Suc (k' - (k + 1))" by arith
    then have pw: "b ^ (k' - k) = b * b ^ (k' - (k + 1))" by simp
    from h have "n' = n * (b * b ^ (k' - (k + 1)))" by (simp add: mult.assoc)
    with pw have e: "n' = n * b ^ (k' - k)" by simp
    from h have "k \<le> k'" by arith
    with h e show ?thesis by blast
  next
    case False
    with "1.prems" show ?thesis
      by (simp add: scale_up.simps [of b bound n k])
  qed
qed

lemma scale_down_spec:
  "2 \<le> b \<Longrightarrow> 0 < d \<Longrightarrow> 0 < lo \<Longrightarrow> d * lo \<le> n
   \<Longrightarrow> scale_down b (lo * b) n d k = (d', k')
   \<Longrightarrow> k \<le> k' \<and> d' = d * b ^ (k' - k) \<and> 0 < d' \<and> d' * lo \<le> n"
proof (induction b "lo * b" n d k rule: scale_down.induct)
  case (1 b n d k)
  show ?case
  proof (cases "d * (lo * b) \<le> n")
    case True
    with "1.prems" have r: "scale_down b (lo * b) n (d * b) (k + 1) = (d', k')"
      by (simp add: scale_down.simps [of b "lo * b" n d k])
    from "1.prems" have p: "0 < d * b" by simp
    from True have l: "d * b * lo \<le> n" by (simp add: mult.commute mult.left_commute)
    from "1.prems" True have c: "2 \<le> b \<and> 0 < d \<and> 0 < lo * b \<and> d * (lo * b) \<le> n" by simp
    from "1.hyps" [OF c "1.prems"(1) p "1.prems"(3) l r]
    have h: "k + 1 \<le> k' \<and> d' = d * b * b ^ (k' - (k + 1)) \<and> 0 < d' \<and> d' * lo \<le> n" .
    then have "k' - k = Suc (k' - (k + 1))" by arith
    then have pw: "b ^ (k' - k) = b * b ^ (k' - (k + 1))" by simp
    from h have "d' = d * (b * b ^ (k' - (k + 1)))" by (simp add: mult.assoc)
    with pw have e: "d' = d * b ^ (k' - k)" by simp
    from h have "k \<le> k'" by arith
    with h e show ?thesis by blast
  next
    case False
    with "1.prems" show ?thesis
      by (simp add: scale_down.simps [of b "lo * b" n d k])
  qed
qed

lemma half_even_cases:
  "half_even n d = n div d \<or> half_even n d = n div d + 1"
  by (simp add: half_even_def Let_def)

lemma half_even_err:
  assumes "0 < d"
  shows "\<bar>int (half_even n d) * int d - int n\<bar> * 2 \<le> int d"
proof -
  define q where "q = n div d"
  define r where "r = n mod d"
  have n: "int n = int q * int d + int r"
    unfolding q_def r_def by (metis div_mult_mod_eq of_nat_add of_nat_mult)
  have r: "r < d" unfolding r_def using assms by simp
  show ?thesis
  proof (cases "2 * r < d")
    case True
    then have "half_even n d = q" by (simp add: half_even_def Let_def q_def r_def)
    with n True show ?thesis by simp
  next
    case False
    show ?thesis
    proof (cases "d < 2 * r")
      case True
      with False have "half_even n d = q + 1" by (simp add: half_even_def Let_def q_def r_def)
      with n True r show ?thesis by (simp add: algebra_simps)
    next
      case f: False
      with False have e: "d = 2 * r" by simp
      have "half_even n d = q \<or> half_even n d = q + 1"
        using half_even_cases [of n d] by (simp add: q_def)
      with n e show ?thesis by (auto simp: algebra_simps)
    qed
  qed
qed

lemma half_even_lower: "n div d \<le> half_even n d"
  using half_even_cases [of n d] by auto

lemma half_even_one: "half_even n (Suc 0) = n"
  by (simp add: half_even_def)

lemma float_of_small:
  assumes "n < 2 ^ 53"
  shows "float_of_decimal (Decimal n) = of_nat n"
proof (cases "n = 0")
  case True
  then show ?thesis by (simp add: float_of_zero)
next
  case False
  show ?thesis
  proof (cases "n < 2 ^ 52")
    case True
    obtain n' k where s: "scale_up 2 (2 ^ 52) n 0 = (n', k)"
      by (cases "scale_up 2 (2 ^ 52) n 0")
    with scale_up_spec [of 2 n "2 ^ 52" 0 n' k] False have "n' = n * 2 ^ k" by simp
    with s True False show ?thesis
      by (simp add: float_of_decimal_def Decimal_def round_sig_def half_even_one)
  next
    case f: False
    with assms have "scale_down 2 (2 ^ 53) n 1 0 = (1, 0)"
      by (subst scale_down.simps) simp
    with f False show ?thesis
      by (simp add: float_of_decimal_def Decimal_def round_sig_def half_even_one)
  qed
qed

lemma nearest_bound:
  fixes c a e lo :: nat
  assumes "0 < e"
      and "\<bar>int c * int e - int a\<bar> * 2 \<le> int e"
      and "e * lo \<le> a"
  shows "\<bar>(of_nat c :: rat) - of_nat a / of_nat e\<bar> * (2 * of_nat lo) \<le> of_nat a / of_nat e"
proof -
  have e: "(0 :: rat) < of_nat e" using assms(1) by simp
  have "(of_nat c :: rat) - of_nat a / of_nat e = of_int (int c * int e - int a) / of_nat e"
    using e by (simp add: field_simps)
  then have "\<bar>(of_nat c :: rat) - of_nat a / of_nat e\<bar> * 2
               = of_int (\<bar>int c * int e - int a\<bar> * 2) / of_nat e"
    using e by (simp add: abs_divide)
  also have "\<dots> \<le> of_int (int e) / of_nat e"
  proof (rule divide_right_mono)
    show "(of_int (\<bar>int c * int e - int a\<bar> * 2) :: rat) \<le> of_int (int e)"
      using assms(2) by (simp only: of_int_le_iff)
    show "(0 :: rat) \<le> of_nat e" by simp
  qed
  also have "\<dots> = 1" using e by simp
  finally have h: "\<bar>(of_nat c :: rat) - of_nat a / of_nat e\<bar> * 2 \<le> 1" .
  have "(of_nat (e * lo) :: rat) \<le> of_nat a" using assms(3) by (simp only: of_nat_le_iff)
  then have l: "(of_nat lo :: rat) \<le> of_nat a / of_nat e"
    using e by (simp add: field_simps)
  have "\<bar>(of_nat c :: rat) - of_nat a / of_nat e\<bar> * (2 * of_nat lo)
          = (\<bar>(of_nat c :: rat) - of_nat a / of_nat e\<bar> * 2) * of_nat lo" by simp
  also have "\<dots> \<le> 1 * of_nat lo"
    using h by (intro mult_right_mono) simp_all
  finally show ?thesis using l by simp
qed

lemma scaled_bound:
  fixes u v s t :: rat
  assumes "0 < s" and "\<bar>u - v\<bar> * t \<le> v"
  shows "\<bar>u * s - v * s\<bar> * t \<le> v * s"
proof -
  have "\<bar>u * s - v * s\<bar> = \<bar>u - v\<bar> * s"
    using assms(1) by (simp add: abs_mult left_diff_distrib [symmetric])
  then have "\<bar>u * s - v * s\<bar> * t = (\<bar>u - v\<bar> * t) * s" by simp
  also have "\<dots> \<le> v * s" using assms by (intro mult_right_mono) simp_all
  finally show ?thesis .
qed

lemma div_lower: "0 < d \<Longrightarrow> d * lo \<le> n \<Longrightarrow> lo \<le> n div (d :: nat)"
  by (metis div_le_mono nonzero_mult_div_cancel_left less_numeral_extra(3))

lemma round_sig_bound:
  assumes "2 \<le> b" and "0 < n" and "0 < d" and "round_sig b p n d = (n', d')" and "0 < p"
  shows "0 < n' \<and> 0 < d'
       \<and> \<bar>(of_nat n' :: rat) / of_nat d' - of_nat n / of_nat d\<bar> * (2 * of_nat (b ^ (p - 1)))
           \<le> of_nat n / of_nat d"
proof -
  define lo where "lo = b ^ (p - 1)"
  have lo: "0 < lo" using assms(1) by (simp add: lo_def)
  show ?thesis
  proof (cases "n < d * lo")
    case True
    obtain n1 k where s: "scale_up b (d * lo) n 0 = (n1, k)"
      by (cases "scale_up b (d * lo) n 0")
    from scale_up_spec [OF assms(1,2) s] have "n1 = n * b ^ (k - 0)" "d * lo \<le> n1" by blast+
    then have n1: "n1 = n * b ^ k" "d * lo \<le> n1" by simp_all
    from assms(4) True s assms(2) have r: "n' = half_even n1 d" "d' = b ^ k"
      by (simp_all add: round_sig_def lo_def)
    have bk: "(0 :: rat) < of_nat (b ^ k)" using assms(1) by simp
    have "lo \<le> n1 div d" using n1(2) assms(3) by (rule div_lower [rotated])
    with half_even_lower [of n1 d] lo have pos: "0 < n'" by (simp add: r)
    from nearest_bound [OF assms(3) half_even_err [OF assms(3), of n1] n1(2)]
    have "\<bar>(of_nat n' :: rat) - of_nat n1 / of_nat d\<bar> * (2 * of_nat lo) \<le> of_nat n1 / of_nat d"
      by (simp add: r)
    from scaled_bound [OF _ this, of "1 / of_nat (b ^ k)"] bk
    have "\<bar>(of_nat n' :: rat) / of_nat (b ^ k) - of_nat n1 / of_nat d / of_nat (b ^ k)\<bar>
            * (2 * of_nat lo) \<le> of_nat n1 / of_nat d / of_nat (b ^ k)"
      by simp
    moreover have "(of_nat n1 :: rat) / of_nat d / of_nat (b ^ k) = of_nat n / of_nat d"
      using bk by (simp add: n1(1))
    ultimately show ?thesis using pos assms(1) by (simp add: r lo_def)
  next
    case False
    then have le: "d * lo \<le> n" by simp
    from assms(5) have hi: "b ^ p = lo * b"
      by (cases p) (simp_all add: lo_def)
    obtain d1 k where s': "scale_down b (b ^ p) n d 0 = (d1, k)"
      by (cases "scale_down b (b ^ p) n d 0")
    then have s: "scale_down b (lo * b) n d 0 = (d1, k)" by (simp add: hi)
    from False have nl: "\<not> n < d * b ^ (p - 1)" by (simp add: lo_def)
    from scale_down_spec [OF assms(1,3) lo le s]
    have "d1 = d * b ^ (k - 0)" "0 < d1" "d1 * lo \<le> n" by blast+
    then have d1: "d1 = d * b ^ k" "0 < d1" "d1 * lo \<le> n" by simp_all
    from assms(4) nl s' assms(2) have r: "n' = half_even n d1 * b ^ k" "d' = 1"
      by (simp_all add: round_sig_def)
    have bk: "(0 :: rat) < of_nat (b ^ k)" using assms(1) by simp
    have "lo \<le> n div d1" using d1(2,3) by (intro div_lower) simp_all
    with half_even_lower [of n d1] lo have "0 < half_even n d1" by simp
    with assms(1) have pos: "0 < n'" by (simp add: r)
    from d1(3) have "d1 * lo \<le> n" .
    from nearest_bound [OF d1(2) half_even_err [OF d1(2), of n] this]
    have "\<bar>(of_nat (half_even n d1) :: rat) - of_nat n / of_nat d1\<bar> * (2 * of_nat lo)
            \<le> of_nat n / of_nat d1" .
    from scaled_bound [OF bk this]
    have "\<bar>(of_nat (half_even n d1) :: rat) * of_nat (b ^ k)
             - of_nat n / of_nat d1 * of_nat (b ^ k)\<bar> * (2 * of_nat lo)
            \<le> of_nat n / of_nat d1 * of_nat (b ^ k)" .
    moreover have "(of_nat n :: rat) / of_nat d1 * of_nat (b ^ k) = of_nat n / of_nat d"
      using bk by (simp add: d1(1))
    ultimately show ?thesis using pos by (simp add: r lo_def)
  qed
qed

lemma float_bound:
  assumes "0 < n" and "0 < d"
  shows "\<bar>float_of_decimal (n, d) - of_nat n / of_nat d\<bar> * 2 ^ 53 \<le> of_nat n / of_nat d"
proof -
  obtain n' d' where r: "round_sig 2 53 n d = (n', d')"
    by (cases "round_sig 2 53 n d")
  from round_sig_bound [OF _ assms r] show ?thesis
    by (simp add: float_of_decimal_def r)
qed

lemma float_size_bound:
  "\<bar>float_of_decimal (Decimal n) - of_nat n\<bar> * 2 ^ 53 \<le> of_nat n"
proof (cases "n = 0")
  case True
  then show ?thesis by (simp add: float_of_zero)
next
  case False
  with float_bound [of n 1] show ?thesis by (simp add: Decimal_def)
qed

lemma float_quotient_bound:
  assumes "0 < b"
  shows "\<bar>float_of_decimal (round_sig 10 28 a b) - of_nat a / of_nat b\<bar> * 2 ^ 52
           \<le> of_nat a / of_nat b"
proof (cases "a = 0")
  case True
  then have "round_sig 10 28 a b = Decimal 0" by (simp add: round_sig_def Decimal_def)
  with True show ?thesis by (simp add: float_of_zero)
next
  case False
  obtain n' d' where r: "round_sig 10 28 a b = (n', d')"
    by (cases "round_sig 10 28 a b")
  define x :: rat where "x = of_nat a / of_nat b"
  define y :: rat where "y = of_nat n' / of_nat d'"
  define z :: rat where "z = float_of_decimal (n', d')"
  from False assms have x: "0 < x" by (simp add: x_def)
  from round_sig_bound [OF _ _ assms r] False
  have p: "0 < n'" "0 < d'" and xy: "\<bar>y - x\<bar> * (2 * 10 ^ 27) \<le> x"
    by (simp_all add: x_def y_def)
  from float_bound [OF p] have yz: "\<bar>z - y\<bar> * 2 ^ 53 \<le> y"
    by (simp add: y_def z_def)
  from xy yz x have "\<bar>z - x\<bar> * 2 ^ 52 \<le> x"
    by (simp add: abs_if split: if_splits)
  then show ?thesis by (simp add: r x_def z_def)
qed

text \<open>The doubles of the scenarios, and two values a double does not hold.\<close>

lemma float_half_buy: "float_of_decimal (round_sig 10 28 500000 1000000) = 1 / 2"
  by (simp add: rounding_defs)

lemma float_half_sell: "float_of_decimal (round_sig 10 28 1000000 2000000) = 1 / 2"
  by (simp add: rounding_defs)

lemma float_million: "float_of_decimal (Decimal 1000000) = 1000000"
  by (simp add: rounding_defs)

lemma float_two_million: "float_of_decimal (Decimal 2000000) = 2000000"
  by (simp add: rounding_defs)

lemma float_third:
  "float_of_decimal (round_sig 10 28 1000000 3000000)
     = 6004799503160661 / 18014398509481984"
  by (simp add: rounding_defs)

lemma float_three_million: "float_of_decimal (Decimal 3000000) = 3000000"
  by (simp add: rounding_defs)

lemma float_one:
  "float_of_decimal (round_sig 10 28 9007199254740993 9007199254740993) = 1"
  by (simp add: rounding_defs)

lemma float_above_53_bits:
  "float_of_decimal (Decimal 9007199254740993) = 9007199254740992"
  by (simp add: rounding_defs)

lemmas scenario_floats = float_of_zero float_half_buy float_half_sell float_million
  float_two_million float_third float_three_million float_one float_above_53_bits

section \<open>Price, side, token and size\<close>

text \<open>
  Claim C1, amended. A decoded fill event that is no self-fill and whose token resolves
  to a market yields a trade, and the trade follows the rule table, with the price and
  the size as the floats the record holds. With \<open>makerAssetId = 0\<close> the side is \<open>BUY\<close>,
  the price is \<open>makerAmountFilled / takerAmountFilled\<close> (for a divisor that is not zero),
  the token is \<open>takerAssetId\<close> in lowercase hexadecimal and the size is
  \<open>takerAmountFilled\<close>; with any other \<open>makerAssetId\<close> the side is \<open>SELL\<close>, the price is
  \<open>takerAmountFilled / makerAmountFilled\<close>, the token is \<open>makerAssetId\<close> and the size is
  \<open>makerAmountFilled\<close>. The price is the \<open>Decimal\<close> quotient of 28 digits as a double: it
  differs from the exact quotient by at most the fraction \<open>2 ^ -52\<close> of it. The size is
  the double nearest to the amount: it differs from the amount by at most the fraction
  \<open>2 ^ -53\<close> of it and is the amount itself below \<open>2 ^ 53\<close>.
\<close>

theorem normalizer_rule_table:
  assumes "event lg = Some args"
      and "lower (ev_taker args) \<noteq> lower (address lg)"
      and "find_market e
             (lower (hex (int (if makerAssetId args = 0 then takerAssetId args
                               else makerAssetId args)))) event_slug st
             = (Inr (Some m), st1)"
  shows "\<exists>t st'. decode_and_process_log e lg event_slug st = (Inr (Some t), st')
        \<and> (makerAssetId args = 0 \<longrightarrow>
              side t = ''BUY''
            \<and> (takerAmountFilled args \<noteq> 0 \<longrightarrow>
                 price t = float_of_decimal
                   (round_sig 10 28 (makerAmountFilled args) (takerAmountFilled args))
               \<and> \<bar>price t - of_nat (makerAmountFilled args) / of_nat (takerAmountFilled args)\<bar>
                     * 2 ^ 52
                   \<le> of_nat (makerAmountFilled args) / of_nat (takerAmountFilled args))
            \<and> token_id t = lower (hex (int (takerAssetId args)))
            \<and> size' t = float_of_decimal (Decimal (takerAmountFilled args))
            \<and> \<bar>size' t - of_nat (takerAmountFilled args)\<bar> * 2 ^ 53
                  \<le> of_nat (takerAmountFilled args)
            \<and> (takerAmountFilled args < 2 ^ 53 \<longrightarrow>
                  size' t = of_nat (takerAmountFilled args)))
        \<and> (makerAssetId args \<noteq> 0 \<longrightarrow>
              side t = ''SELL''
            \<and> (makerAmountFilled args \<noteq> 0 \<longrightarrow>
                 price t = float_of_decimal
                   (round_sig 10 28 (takerAmountFilled args) (makerAmountFilled args))
               \<and> \<bar>price t - of_nat (takerAmountFilled args) / of_nat (makerAmountFilled args)\<bar>
                     * 2 ^ 52
                   \<le> of_nat (takerAmountFilled args) / of_nat (makerAmountFilled args))
            \<and> token_id t = lower (hex (int (makerAssetId args)))
            \<and> size' t = float_of_decimal (Decimal (makerAmountFilled args))
            \<and> \<bar>size' t - of_nat (makerAmountFilled args)\<bar> * 2 ^ 53
                  \<le> of_nat (makerAmountFilled args)
            \<and> (makerAmountFilled args < 2 ^ 53 \<longrightarrow>
                  size' t = of_nat (makerAmountFilled args)))"
proof -
  obtain ts st2 where g: "get_block_timestamp e (blockNumber lg) st1 = (ts, st2)"
    by (cases "get_block_timestamp e (blockNumber lg) st1")
  note bounds =
    float_quotient_bound [of "takerAmountFilled args" "makerAmountFilled args"]
    float_quotient_bound [of "makerAmountFilled args" "takerAmountFilled args"]
    float_size_bound [of "takerAmountFilled args"]
    float_size_bound [of "makerAmountFilled args"]
    float_of_small [of "takerAmountFilled args"]
    float_of_small [of "makerAmountFilled args"]
  show ?thesis
  proof (cases "makerAssetId args = 0")
    case True
    with assms g bounds show ?thesis
      by (simp add: decode_and_process_log_def price_token_side_def decimal_div_def Let_def)
  next
    case False
    with assms g bounds show ?thesis
      by (simp add: decode_and_process_log_def price_token_side_def decimal_div_def Let_def)
  qed
qed

lemma find_market_rain:
  "find_market (world logs [gamma_rain] fault) ''0x4d'' None (indexer_on (db_rain b))
     = (Inr (Some row_rain), (indexer_on (db_rain b))\<lparr>calls := [FetchMarket ''0x4d'']\<rparr>)"
  by (simp add: find_market_def fetch_market_by_token_id_def scenario_defs)

lemma decode_log_buy:
  "fst (decode_and_process_log (world None [gamma_rain] None) log_buy None (indexer_on (db_rain 0)))
     = Inr (Some trade_buy)"
  by (simp add: indexer_defs store_defs scenario_defs string_defs scenario_floats)

lemma decode_log_sell:
  "fst (decode_and_process_log (world None [gamma_rain] None) log_sell None (indexer_on (db_rain 0)))
     = Inr (Some trade_sell)"
  by (simp add: indexer_defs store_defs scenario_defs string_defs scenario_floats)

theorem normalizer_rule_table_witness:
  "event log_buy = Some (fill ''0xTaker'' 0 77 500000 1000000)
   \<and> event log_sell = Some (fill ''0xTaker'' 77 0 2000000 1000000)
   \<and> (\<exists>t st'. decode_and_process_log (world None [gamma_rain] None) log_buy None
                 (indexer_on (db_rain 0)) = (Inr (Some t), st')
        \<and> side t = ''BUY'' \<and> price t = 1 / 2 \<and> token_id t = ''0x4d'' \<and> size' t = 1000000)
   \<and> (\<exists>t st'. decode_and_process_log (world None [gamma_rain] None) log_sell None
                 (indexer_on (db_rain 0)) = (Inr (Some t), st')
        \<and> side t = ''SELL'' \<and> price t = 1 / 2 \<and> token_id t = ''0x4d'' \<and> size' t = 2000000)"
proof -
  let ?e = "world None [gamma_rain] None"
  let ?st = "indexer_on (db_rain 0)"
  let ?buy = "fill ''0xTaker'' 0 77 500000 1000000"
  let ?sell = "fill ''0xTaker'' 77 0 2000000 1000000"
  have b1: "event log_buy = Some ?buy"
    by (simp add: log_buy_def log_at_def)
  have b2: "lower (ev_taker ?buy) \<noteq> lower (address log_buy)"
    by (simp add: scenario_defs string_defs)
  have b3: "find_market ?e (lower (hex (int (if makerAssetId ?buy = 0 then takerAssetId ?buy
               else makerAssetId ?buy)))) None ?st
             = (Inr (Some row_rain), ?st\<lparr>calls := [FetchMarket ''0x4d'']\<rparr>)"
    by (simp add: fill_def string_defs find_market_rain)
  have s1: "event log_sell = Some ?sell"
    by (simp add: log_sell_def log_at_def)
  have s2: "lower (ev_taker ?sell) \<noteq> lower (address log_sell)"
    by (simp add: scenario_defs string_defs)
  have s3: "find_market ?e (lower (hex (int (if makerAssetId ?sell = 0 then takerAssetId ?sell
               else makerAssetId ?sell)))) None ?st
             = (Inr (Some row_rain), ?st\<lparr>calls := [FetchMarket ''0x4d'']\<rparr>)"
    by (simp add: fill_def string_defs find_market_rain)
  have hx: "lower (hex 77) = ''0x4d''"
    by (simp add: string_defs)
  from normalizer_rule_table [OF b1 b2 b3]
  have "\<exists>t st'. decode_and_process_log ?e log_buy None ?st = (Inr (Some t), st')
        \<and> side t = ''BUY'' \<and> price t = 1 / 2 \<and> token_id t = ''0x4d'' \<and> size' t = 1000000"
    by (simp add: fill_def hx scenario_floats) blast
  moreover from normalizer_rule_table [OF s1 s2 s3]
  have "\<exists>t st'. decode_and_process_log ?e log_sell None ?st = (Inr (Some t), st')
        \<and> side t = ''SELL'' \<and> price t = 1 / 2 \<and> token_id t = ''0x4d'' \<and> size' t = 2000000"
    by (simp add: fill_def hx scenario_floats) blast
  ultimately show ?thesis using b1 s1 by blast
qed

text \<open>
  The float is not always the number of the rule table. For the amount \<open>2 ^ 53 + 1\<close> the
  size of the trade is \<open>2 ^ 53\<close>, and for the amounts 1000000 and 3000000 the price is
  a double next to one third.
\<close>

theorem float_rounds_size_and_price:
  "event log_big = Some (fill ''0xTaker'' 0 77 9007199254740993 9007199254740993)
   \<and> fst (decode_and_process_log (world None [gamma_rain] None) log_big None
            (indexer_on (db_rain 0))) = Inr (Some trade_big)
   \<and> size' trade_big = 9007199254740992
   \<and> size' trade_big
       \<noteq> of_nat (takerAmountFilled (fill ''0xTaker'' 0 77 9007199254740993 9007199254740993))
   \<and> event log_third = Some (fill ''0xTaker'' 0 77 1000000 3000000)
   \<and> fst (decode_and_process_log (world None [gamma_rain] None) log_third None
            (indexer_on (db_rain 0))) = Inr (Some trade_third)
   \<and> price trade_third
       \<noteq> of_nat (makerAmountFilled (fill ''0xTaker'' 0 77 1000000 3000000))
         / of_nat (takerAmountFilled (fill ''0xTaker'' 0 77 1000000 3000000))"
  by (simp add: indexer_defs store_defs scenario_defs string_defs scenario_floats)

text \<open>
  Claim C7. When the divisor is zero (\<open>takerAmountFilled\<close> on the buy branch,
  \<open>makerAmountFilled\<close> on the sell branch) the price is 0, nothing is raised, and a log
  that is no self-fill and whose token resolves to a market still yields a trade, with
  price 0.
\<close>

theorem zero_divisor_price:
  assumes "event lg = Some args"
      and "lower (ev_taker args) \<noteq> lower (address lg)"
      and "find_market e (lower (hex (int (fst (snd (price_token_side args)))))) event_slug st
             = (Inr (Some m), st1)"
      and "(makerAssetId args = 0 \<and> takerAmountFilled args = 0)
           \<or> (makerAssetId args \<noteq> 0 \<and> makerAmountFilled args = 0)"
  shows "fst (price_token_side args) = Decimal 0
       \<and> float_of_decimal (fst (price_token_side args)) = 0
       \<and> (\<exists>t st'. decode_and_process_log e lg event_slug st = (Inr (Some t), st')
                  \<and> price t = 0)"
proof -
  obtain ts st2 where g: "get_block_timestamp e (blockNumber lg) st1 = (ts, st2)"
    by (cases "get_block_timestamp e (blockNumber lg) st1")
  have p: "fst (price_token_side args) = Decimal 0"
    using assms(4) by (auto simp: price_token_side_def decimal_div_def)
  obtain p0 tok sd where pts: "price_token_side args = (p0, tok, sd)"
    by (cases "price_token_side args")
  with p have p0: "p0 = Decimal 0" by simp
  from pts assms(3) have f: "find_market e (lower (hex (int tok))) event_slug st = (Inr (Some m), st1)"
    by simp
  show ?thesis
    using assms(1,2) p
    by (simp add: decode_and_process_log_def pts f g p0 Let_def float_of_zero)
qed

theorem zero_divisor_price_witness:
  "event log_zero = Some (fill ''0xTaker'' 0 77 500000 0)
   \<and> takerAmountFilled (fill ''0xTaker'' 0 77 500000 0) = 0
   \<and> fst (price_token_side (fill ''0xTaker'' 0 77 500000 0)) = Decimal 0
   \<and> float_of_decimal (fst (price_token_side (fill ''0xTaker'' 0 77 500000 0))) = 0
   \<and> (\<exists>t st'. decode_and_process_log (world None [gamma_rain] None) log_zero None
                  (indexer_on (db_rain 0)) = (Inr (Some t), st') \<and> price t = 0)"
proof -
  let ?args = "fill ''0xTaker'' 0 77 500000 0"
  let ?e = "world None [gamma_rain] None"
  let ?st = "indexer_on (db_rain 0)"
  have h1: "event log_zero = Some ?args"
    by (simp add: log_zero_def log_at_def)
  have h2: "lower (ev_taker ?args) \<noteq> lower (address log_zero)"
    by (simp add: scenario_defs string_defs)
  have h3: "find_market ?e (lower (hex (int (fst (snd (price_token_side ?args)))))) None ?st
              = (Inr (Some row_rain), ?st\<lparr>calls := [FetchMarket ''0x4d'']\<rparr>)"
    by (simp add: price_token_side_def fill_def string_defs find_market_rain)
  have h4: "(makerAssetId ?args = 0 \<and> takerAmountFilled ?args = 0)
            \<or> (makerAssetId ?args \<noteq> 0 \<and> makerAmountFilled ?args = 0)"
    by (simp add: fill_def)
  from zero_divisor_price [OF h1 h2 h3 h4] h1 show ?thesis
    by (simp add: fill_def float_of_zero)
qed

section \<open>Self-fills\<close>

lemma process_logs_append:
  "process_logs e event_slug (xs @ ys) st =
     (case process_logs e event_slug xs st of
        (ts1, st1) \<Rightarrow> (case process_logs e event_slug ys st1 of
                        (ts2, st2) \<Rightarrow> (ts1 @ ts2, st2)))"
  by (induction xs arbitrary: st) (auto split: prod.splits sum.splits option.splits)

text \<open>
  Claim C6. For a log whose decoded taker equals the address of the log, compared without
  regard to case, \<open>decode_and_process_log\<close> returns \<open>None\<close> and changes nothing; at any
  place of a batch the loop behaves as if the log were absent, and a run over that log
  alone returns the empty list and leaves the indexer and the store as they were.
\<close>

theorem self_fill_dropped:
  assumes "event lg = Some args"
      and "lower (ev_taker args) = lower (address lg)"
  shows "decode_and_process_log e lg event_slug st = (Inr None, st)
       \<and> process_logs e event_slug (before @ lg # after) st
           = process_logs e event_slug (before @ after) st
       \<and> (get_logs e from_block to_block = Some [lg] \<longrightarrow>
            run_indexer e from_block to_block event_slug st = (Inr [], st))"
proof -
  have d: "\<And>st. decode_and_process_log e lg event_slug st = (Inr None, st)"
    using assms by (simp add: decode_and_process_log_def)
  have "\<And>st. process_logs e event_slug (lg # after) st = process_logs e event_slug after st"
    by (simp add: d)
  then have "process_logs e event_slug (before @ lg # after) st
               = process_logs e event_slug (before @ after) st"
    by (simp add: process_logs_append)
  moreover have "get_logs e from_block to_block = Some [lg] \<longrightarrow>
            run_indexer e from_block to_block event_slug st = (Inr [], st)"
    by (simp add: run_indexer_def d)
  ultimately show ?thesis using d by simp
qed

theorem self_fill_dropped_witness:
  "event log_self = Some (fill ''0xEXCHANGE'' 0 77 500000 1000000)
   \<and> ev_taker (fill ''0xEXCHANGE'' 0 77 500000 1000000) = ''0xEXCHANGE''
   \<and> address log_self = ''0xExchange''
   \<and> decode_and_process_log (world (Some [log_self]) [gamma_rain] None) log_self None
        (indexer_on (db_rain 0)) = (Inr None, indexer_on (db_rain 0))
   \<and> run_indexer (world (Some [log_self]) [gamma_rain] None) 100 200 None
        (indexer_on (db_rain 0)) = (Inr [], indexer_on (db_rain 0))"
proof -
  let ?args = "fill ''0xEXCHANGE'' 0 77 500000 1000000"
  have h1: "event log_self = Some ?args"
    by (simp add: log_self_def log_at_def)
  have h2: "lower (ev_taker ?args) = lower (address log_self)"
    by (simp add: scenario_defs string_defs)
  have h3: "get_logs (world (Some [log_self]) [gamma_rain] None) 100 200 = Some [log_self]"
    by (simp add: world_def)
  from self_fill_dropped [OF h1 h2, of "world (Some [log_self]) [gamma_rain] None" None
      "indexer_on (db_rain 0)" "[]" "[]" 100 200] h1 h3
  show ?thesis
    by (simp add: fill_def log_self_def log_at_def)
qed

section \<open>What the per-log pipeline leaves alone\<close>

lemma upsert_market_frame:
  "trades (snd (upsert_market fault md s)) = trades s
   \<and> sync_state (snd (upsert_market fault md s)) = sync_state s"
  by (simp add: upsert_market_def split: option.splits)

lemma store_markets_frame:
  "trades (snd (store_markets fault ms n s)) = trades s
   \<and> sync_state (snd (store_markets fault ms n s)) = sync_state s"
proof (induction ms arbitrary: n s)
  case Nil
  then show ?case by simp
next
  case (Cons a ms)
  show ?case
  proof (cases "process_market_data a")
    case None
    then show ?thesis using Cons by simp
  next
    case (Some md)
    obtain r s1 where u: "upsert_market fault md s = (r, s1)"
      by (cases "upsert_market fault md s")
    with upsert_market_frame [of fault md s]
    have f: "trades s1 = trades s \<and> sync_state s1 = sync_state s" by simp
    show ?thesis
      using Some u f Cons [of "n + 1" s1]
      by (cases r) (simp_all add: validate_market_tokens_def)
  qed
qed

lemma find_market_frame:
  assumes "find_market e tok event_slug st = (r, st')"
  shows "trades (store st') = trades (store st)
       \<and> sync_state (store st') = sync_state (store st)
       \<and> writes (calls st') = writes (calls st)"
proof (cases "fetch_market_by_token_id (store st) tok")
  case (Some m)
  with assms show ?thesis
    by (auto simp: find_market_def writes_def Let_def)
next
  case None
  show ?thesis
  proof (cases "truthy event_slug")
    case False
    with None assms show ?thesis
      by (auto simp: find_market_def writes_def Let_def truthy_def split: option.splits if_splits)
  next
    case True
    then obtain sl where sl: "event_slug = Some sl" "sl \<noteq> []"
      by (auto simp: truthy_def split: option.splits)
    obtain r2 s2 where d: "discover_and_store_markets e sl (store st) = (r2, s2)"
      by (cases "discover_and_store_markets e sl (store st)")
    with store_markets_frame [of "upsert_fault e" "fetch_markets_by_slug (http_get e) sl" 0 "store st"]
    have f: "trades s2 = trades (store st) \<and> sync_state s2 = sync_state (store st)"
      by (simp add: discover_and_store_markets_def)
    show ?thesis
      using assms None sl d f
      by (cases r2) (auto simp: find_market_def writes_def Let_def)
  qed
qed

lemma get_block_timestamp_frame:
  "store (snd (get_block_timestamp e bn st)) = store st
   \<and> calls (snd (get_block_timestamp e bn st)) = calls st"
  by (simp add: get_block_timestamp_def split: option.splits)

lemma decode_frame:
  assumes "decode_and_process_log e lg event_slug st = (r, st')"
  shows "trades (store st') = trades (store st)
       \<and> sync_state (store st') = sync_state (store st)
       \<and> writes (calls st') = writes (calls st)"
proof (cases "event lg")
  case None
  with assms show ?thesis by (simp add: decode_and_process_log_def)
next
  case (Some args)
  show ?thesis
  proof (cases "lower (ev_taker args) = lower (address lg)")
    case True
    with Some assms show ?thesis by (simp add: decode_and_process_log_def)
  next
    case False
    obtain p tok sd where pts: "price_token_side args = (p, tok, sd)"
      by (cases "price_token_side args")
    obtain r1 st1 where f: "find_market e (lower (hex (int tok))) event_slug st = (r1, st1)"
      by (cases "find_market e (lower (hex (int tok))) event_slug st")
    note fr = find_market_frame [OF f]
    obtain ts st2 where g: "get_block_timestamp e (blockNumber lg) st1 = (ts, st2)"
      by (cases "get_block_timestamp e (blockNumber lg) st1")
    with get_block_timestamp_frame [of e "blockNumber lg" st1]
    have gf: "store st2 = store st1 \<and> calls st2 = calls st1" by simp
    show ?thesis
      using assms Some False pts f fr g gf
      by (auto simp: decode_and_process_log_def Let_def split: sum.splits option.splits)
  qed
qed

lemma process_logs_frame:
  "process_logs e event_slug logs st = (ts, st')
   \<Longrightarrow> trades (store st') = trades (store st)
       \<and> sync_state (store st') = sync_state (store st)
       \<and> writes (calls st') = writes (calls st)"
proof (induction logs arbitrary: st ts st')
  case Nil
  then show ?case by simp
next
  case (Cons lg logs)
  obtain r st1 where d: "decode_and_process_log e lg event_slug st = (r, st1)"
    by (cases "decode_and_process_log e lg event_slug st")
  note df = decode_frame [OF d]
  obtain ts2 st2 where p: "process_logs e event_slug logs st1 = (ts2, st2)"
    by (cases "process_logs e event_slug logs st1")
  note pf = Cons.IH [OF p]
  have "st' = st2"
    using Cons.prems d p by (auto split: sum.splits option.splits)
  with df pf show ?case by simp
qed

lemma executemany_fault: "executemany (Some k) ts rows = Inl StorageError"
proof (induction ts arbitrary: k rows)
  case Nil
  then show ?case by simp
next
  case (Cons t ts)
  then show ?case by (cases k) simp_all
qed

section \<open>Runs of the indexer\<close>

lemma run_indexer_nonempty:
  assumes "run_indexer e from_block to_block event_slug st = (Inr ts, st')"
      and "ts \<noteq> []"
  shows "\<exists>logs st1. get_logs e from_block to_block = Some logs
           \<and> process_logs e event_slug logs st = (ts, st1)
           \<and> markets (store st') = markets (store st1)
           \<and> trades (store st') = foldl insert_or_ignore (trades (store st1)) ts
           \<and> sync_state (store st') = (sync_state (store st1))(''last_block'' \<mapsto> to_block)
           \<and> calls st' = calls st1 @ [InsertTrades, UpdateSyncState to_block]"
proof (cases "get_logs e from_block to_block")
  case None
  with assms show ?thesis by (simp add: run_indexer_def)
next
  case (Some logs)
  obtain ts1 st1 where p: "process_logs e event_slug logs st = (ts1, st1)"
    by (cases "process_logs e event_slug logs st")
  show ?thesis
  proof (cases "insert_fault e")
    case None
    with assms Some p show ?thesis
      by (auto simp: run_indexer_def insert_trades_def update_sync_state_def
          executemany_healthy split: if_splits)
  next
    case (Some k)
    with assms \<open>get_logs e from_block to_block = Some logs\<close> p show ?thesis
      by (auto simp: run_indexer_def insert_trades_def executemany_fault split: if_splits)
  qed
qed

lemma run_indexer_empty:
  assumes "run_indexer e from_block to_block event_slug st = (Inr [], st')"
  shows "trades (store st') = trades (store st)
       \<and> sync_state (store st') = sync_state (store st)
       \<and> writes (calls st') = writes (calls st)"
proof (cases "get_logs e from_block to_block")
  case None
  with assms show ?thesis by (simp add: run_indexer_def)
next
  case (Some logs)
  obtain ts1 st1 where p: "process_logs e event_slug logs st = (ts1, st1)"
    by (cases "process_logs e event_slug logs st")
  note fr = process_logs_frame [OF p]
  show ?thesis
  proof (cases "ts1 = []")
    case True
    with assms Some p fr show ?thesis by (simp add: run_indexer_def)
  next
    case False
    with assms Some p show ?thesis
      by (auto simp: run_indexer_def split: prod.splits sum.splits)
  qed
qed

lemma run_log_buy:
  "fst (run_indexer (world (Some [log_buy]) [gamma_rain] None) from_block to_block None
          (indexer_on (db_rain b))) = Inr [trade_buy]"
  by (simp add: indexer_defs store_defs scenario_defs string_defs scenario_floats)

lemma process_log_buy:
  "fst (process_logs (world (Some [log_buy]) [gamma_rain] fault) None [log_buy]
          (indexer_on (db_rain b))) = [trade_buy]"
  by (simp add: indexer_defs store_defs scenario_defs string_defs scenario_floats)

lemma process_unknown_self:
  "fst (process_logs (world (Some [log_unknown, log_self]) [gamma_rain] None) (Some ''ev'')
          [log_unknown, log_self] (indexer_on init_db)) = []"
  by (simp add: indexer_defs store_defs discovery_defs scenario_defs string_defs)

text \<open>
  Claim C10. In a run in which no trade survives the loop over the logs, also when
  \<open>get_logs\<close> returns no log or fails, \<open>run_indexer\<close> returns the empty list, makes no
  call of \<open>insert_trades\<close> or \<open>update_sync_state\<close>, and leaves the rows of \<open>trades\<close> and
  the checkpoint as they were; and \<open>insert_trades\<close> on the empty list returns at once
  with the database unchanged.
\<close>

theorem empty_batch_frame:
  assumes "case get_logs e from_block to_block of
             None \<Rightarrow> True
           | Some logs \<Rightarrow> fst (process_logs e event_slug logs st) = []"
  shows "fst (run_indexer e from_block to_block event_slug st) = Inr []
       \<and> trades (store (snd (run_indexer e from_block to_block event_slug st)))
           = trades (store st)
       \<and> sync_state (store (snd (run_indexer e from_block to_block event_slug st)))
           = sync_state (store st)
       \<and> get_sync_state (store (snd (run_indexer e from_block to_block event_slug st)))
           = get_sync_state (store st)
       \<and> writes (calls (snd (run_indexer e from_block to_block event_slug st)))
           = writes (calls st)
       \<and> insert_trades fault [] s = (Inr (), s)"
proof -
  have r: "fst (run_indexer e from_block to_block event_slug st) = Inr []"
  proof (cases "get_logs e from_block to_block")
    case None
    then show ?thesis by (simp add: run_indexer_def)
  next
    case (Some logs)
    with assms show ?thesis
      by (cases "process_logs e event_slug logs st") (simp add: run_indexer_def)
  qed
  then have "run_indexer e from_block to_block event_slug st
               = (Inr [], snd (run_indexer e from_block to_block event_slug st))"
    by (simp add: prod_eq_iff)
  from run_indexer_empty [OF this] r show ?thesis
    by (simp add: get_sync_state_def insert_trades_def)
qed

theorem empty_batch_frame_witness:
  "get_logs (world (Some [log_unknown, log_self]) [gamma_rain] None) 100 200
     = Some [log_unknown, log_self]
   \<and> fst (run_indexer (world (Some [log_unknown, log_self]) [gamma_rain] None) 100 200
            (Some ''ev'') (indexer_on init_db)) = Inr []
   \<and> trades (store (snd (run_indexer (world (Some [log_unknown, log_self]) [gamma_rain] None)
            100 200 (Some ''ev'') (indexer_on init_db)))) = []
   \<and> get_sync_state (store (snd (run_indexer
            (world (Some [log_unknown, log_self]) [gamma_rain] None)
            100 200 (Some ''ev'') (indexer_on init_db)))) = 0
   \<and> writes (calls (snd (run_indexer (world (Some [log_unknown, log_self]) [gamma_rain] None)
            100 200 (Some ''ev'') (indexer_on init_db)))) = []"
proof -
  let ?e = "world (Some [log_unknown, log_self]) [gamma_rain] None"
  have g: "get_logs ?e 100 200 = Some [log_unknown, log_self]"
    by (simp add: world_def)
  have h: "case get_logs ?e 100 200 of None \<Rightarrow> True
           | Some logs \<Rightarrow> fst (process_logs ?e (Some ''ev'') logs (indexer_on init_db)) = []"
    by (simp only: g option.case process_unknown_self)
  from empty_batch_frame [OF h] g show ?thesis
    by (simp add: indexer_on_def init_db_def get_sync_state_def writes_def)
qed

text \<open>
  Claim C3. When \<open>run_indexer\<close> returns a non-empty batch, the checkpoint is \<open>to_block\<close>,
  every trade of the batch has its key in \<open>trades\<close>, and the writes of the run are
  \<open>insert_trades\<close> first and \<open>update_sync_state\<close> after it. When the loop has produced a
  non-empty batch and the storage engine fails inside \<open>insert_trades\<close>, the run ends
  with the storage error, \<open>update_sync_state\<close> is not called, the checkpoint keeps
  its value and no row of the batch is in \<open>trades\<close>.
\<close>

theorem checkpoint_after_insert:
  "(run_indexer e from_block to_block event_slug st = (Inr ts, st') \<and> ts \<noteq> [] \<longrightarrow>
      get_sync_state (store st') = to_block
    \<and> list_all (\<lambda>t. key_exists (trades (store st')) (tx_hash t) (log_index t)) ts
    \<and> writes (calls st') = writes (calls st) @ [InsertTrades, UpdateSyncState to_block])
 \<and> (get_logs e from_block to_block = Some logs
      \<and> fst (process_logs e event_slug logs st) \<noteq> []
      \<and> insert_fault e = Some k \<longrightarrow>
      fst (run_indexer e from_block to_block event_slug st) = Inl StorageError
    \<and> get_sync_state (store (snd (run_indexer e from_block to_block event_slug st)))
        = get_sync_state (store st)
    \<and> trades (store (snd (run_indexer e from_block to_block event_slug st)))
        = trades (store st)
    \<and> writes (calls (snd (run_indexer e from_block to_block event_slug st)))
        = writes (calls st) @ [InsertTrades])"
proof (intro conjI impI)
  assume a: "run_indexer e from_block to_block event_slug st = (Inr ts, st') \<and> ts \<noteq> []"
  then obtain logs1 st1 where
    p: "process_logs e event_slug logs1 st = (ts, st1)" and
    t: "trades (store st') = foldl insert_or_ignore (trades (store st1)) ts" and
    s: "sync_state (store st') = (sync_state (store st1))(''last_block'' \<mapsto> to_block)" and
    c: "calls st' = calls st1 @ [InsertTrades, UpdateSyncState to_block]"
    using run_indexer_nonempty [of e from_block to_block event_slug st ts st'] by blast
  note fr = process_logs_frame [OF p]
  show "get_sync_state (store st') = to_block"
    using s by (simp add: get_sync_state_def)
  show "list_all (\<lambda>t. key_exists (trades (store st')) (tx_hash t) (log_index t)) ts"
    using t by (simp add: list_all_iff inserted_keys_exist)
  show "writes (calls st') = writes (calls st) @ [InsertTrades, UpdateSyncState to_block]"
    using c fr by (simp add: writes_def)
next
  assume b: "get_logs e from_block to_block = Some logs
      \<and> fst (process_logs e event_slug logs st) \<noteq> [] \<and> insert_fault e = Some k"
  obtain ts1 st1 where p: "process_logs e event_slug logs st = (ts1, st1)"
    by (cases "process_logs e event_slug logs st")
  note fr = process_logs_frame [OF p]
  have r: "run_indexer e from_block to_block event_slug st
             = (Inl StorageError, st1\<lparr>calls := calls st1 @ [InsertTrades]\<rparr>)"
    using b p by (simp add: run_indexer_def insert_trades_def executemany_fault)
  show "fst (run_indexer e from_block to_block event_slug st) = Inl StorageError"
    by (simp add: r)
  show "get_sync_state (store (snd (run_indexer e from_block to_block event_slug st)))
        = get_sync_state (store st)"
    using fr by (simp add: r get_sync_state_def)
  show "trades (store (snd (run_indexer e from_block to_block event_slug st)))
        = trades (store st)"
    using fr by (simp add: r)
  show "writes (calls (snd (run_indexer e from_block to_block event_slug st)))
        = writes (calls st) @ [InsertTrades]"
    using fr by (simp add: r writes_def)
qed

theorem checkpoint_after_insert_witness:
  "fst (run_indexer (world (Some [log_buy]) [gamma_rain] None) 100 200 None
          (indexer_on (db_rain 42))) = Inr [trade_buy]
   \<and> get_sync_state (store (snd (run_indexer (world (Some [log_buy]) [gamma_rain] None)
          100 200 None (indexer_on (db_rain 42))))) = 200
   \<and> insert_fault (world (Some [log_buy]) [gamma_rain] (Some 0)) = Some 0
   \<and> fst (run_indexer (world (Some [log_buy]) [gamma_rain] (Some 0)) 100 200 None
          (indexer_on (db_rain 42))) = Inl StorageError
   \<and> get_sync_state (store (snd (run_indexer (world (Some [log_buy]) [gamma_rain] (Some 0))
          100 200 None (indexer_on (db_rain 42))))) = 42
   \<and> trades (store (snd (run_indexer (world (Some [log_buy]) [gamma_rain] (Some 0))
          100 200 None (indexer_on (db_rain 42))))) = []"
proof -
  let ?ok = "world (Some [log_buy]) [gamma_rain] None"
  let ?bad = "world (Some [log_buy]) [gamma_rain] (Some 0)"
  let ?st = "indexer_on (db_rain 42)"
  have r: "run_indexer ?ok 100 200 None ?st
             = (Inr [trade_buy], snd (run_indexer ?ok 100 200 None ?st))"
    by (simp add: prod_eq_iff run_log_buy)
  have g: "get_logs ?bad 100 200 = Some [log_buy]" "insert_fault ?bad = Some 0"
    by (simp_all add: world_def)
  have p: "fst (process_logs ?bad None [log_buy] ?st) \<noteq> []"
    by (simp only: process_log_buy) simp
  have s: "get_sync_state (store ?st) = 42" "trades (store ?st) = []"
    by (simp_all add: indexer_on_def db_rain_def get_sync_state_def)
  from checkpoint_after_insert [of ?ok 100 200 None ?st "[trade_buy]"
      "snd (run_indexer ?ok 100 200 None ?st)"] r
  have a: "get_sync_state (store (snd (run_indexer ?ok 100 200 None ?st))) = 200"
    by simp
  from checkpoint_after_insert [of ?bad 100 200 None ?st _ _ "[log_buy]" 0] g p s
  have b: "fst (run_indexer ?bad 100 200 None ?st) = Inl StorageError
    \<and> get_sync_state (store (snd (run_indexer ?bad 100 200 None ?st))) = 42
    \<and> trades (store (snd (run_indexer ?bad 100 200 None ?st))) = []"
    by simp
  from a b g show ?thesis by (simp add: run_log_buy)
qed

text \<open>
  Claim C4, amended. When \<open>get_logs\<close> fails, \<open>run_indexer\<close> logs the error and returns
  the empty list to its caller as it does for a range without logs; no exception leaves
  it, and the indexer and the store, so the rows of \<open>trades\<close> and the checkpoint, are
  unchanged.
\<close>

theorem fetch_error_returns_empty:
  "get_logs e from_block to_block = None
   \<Longrightarrow> run_indexer e from_block to_block event_slug st = (Inr [], st)"
  by (simp add: run_indexer_def)

theorem fetch_error_returns_empty_witness:
  "get_logs (world None [] None) 1 2 = None
   \<and> run_indexer (world None [] None) 1 2 (Some ''ev'') (indexer_on init_db)
       = (Inr [], indexer_on init_db)"
proof -
  have g: "get_logs (world None [] None) 1 2 = None"
    by (simp add: world_def)
  from fetch_error_returns_empty [OF g] g show ?thesis by simp
qed

text \<open>
  With an RPC node that fails on \<open>get_logs\<close>, the run over the blocks 100 to 200 returns
  the empty list and no error.
\<close>

theorem fetch_error_not_surfaced:
  "get_logs (world None [gamma_rain] None) 100 200 = None
   \<and> \<not> isl (fst (run_indexer (world None [gamma_rain] None) 100 200 None
                   (indexer_on (db_rain 42))))
   \<and> run_indexer (world None [gamma_rain] None) 100 200 None (indexer_on (db_rain 42))
       = (Inr [], indexer_on (db_rain 42))"
  by (simp add: run_indexer_def world_def)

text \<open>
  Claim C8, amended. After a run of \<open>run_indexer\<close> that returns, the checkpoint is
  \<open>to_block\<close> when the batch is non-empty and is unchanged otherwise; so it has not
  decreased whenever \<open>to_block\<close> is at least the checkpoint before the run. And
  \<open>get_sync_state\<close> returns 0 when no checkpoint is stored.
\<close>

theorem checkpoint_follows_to_block:
  "(run_indexer e from_block to_block event_slug st = (Inr ts, st') \<longrightarrow>
      get_sync_state (store st')
        = (if ts = [] then get_sync_state (store st) else to_block)
    \<and> (get_sync_state (store st) \<le> to_block \<longrightarrow>
         get_sync_state (store st) \<le> get_sync_state (store st')))
 \<and> (sync_state s ''last_block'' = None \<longrightarrow> get_sync_state s = 0)"
proof (intro conjI impI)
  assume a: "run_indexer e from_block to_block event_slug st = (Inr ts, st')"
  show g: "get_sync_state (store st')
        = (if ts = [] then get_sync_state (store st) else to_block)"
  proof (cases "ts = []")
    case True
    with a run_indexer_empty [of e from_block to_block event_slug st st'] show ?thesis
      by (simp add: get_sync_state_def)
  next
    case False
    with a run_indexer_nonempty [of e from_block to_block event_slug st ts st'] show ?thesis
      by (auto simp: get_sync_state_def)
  qed
  assume "get_sync_state (store st) \<le> to_block"
  with g show "get_sync_state (store st) \<le> get_sync_state (store st')"
    by simp
next
  assume "sync_state s ''last_block'' = None"
  then show "get_sync_state s = 0" by (simp add: get_sync_state_def)
qed

theorem checkpoint_follows_to_block_witness:
  "fst (run_indexer (world (Some [log_buy]) [gamma_rain] None) 150 300 None
          (indexer_on (db_rain 200))) = Inr [trade_buy]
   \<and> get_sync_state (store (indexer_on (db_rain 200))) = 200
   \<and> get_sync_state (store (snd (run_indexer (world (Some [log_buy]) [gamma_rain] None)
          150 300 None (indexer_on (db_rain 200))))) = 300
   \<and> sync_state (init_db\<lparr>sync_state := Map.empty\<rparr>) ''last_block'' = None
   \<and> get_sync_state (init_db\<lparr>sync_state := Map.empty\<rparr>) = 0"
proof -
  let ?e = "world (Some [log_buy]) [gamma_rain] None"
  let ?st = "indexer_on (db_rain 200)"
  have r: "run_indexer ?e 150 300 None ?st
             = (Inr [trade_buy], snd (run_indexer ?e 150 300 None ?st))"
    by (simp add: prod_eq_iff run_log_buy)
  have s: "get_sync_state (store ?st) = 200"
    by (simp add: indexer_on_def db_rain_def get_sync_state_def)
  have n: "sync_state (init_db\<lparr>sync_state := Map.empty\<rparr>) ''last_block'' = None"
    by simp
  from checkpoint_follows_to_block [of ?e 150 300 None ?st "[trade_buy]"
      "snd (run_indexer ?e 150 300 None ?st)" "init_db\<lparr>sync_state := Map.empty\<rparr>"] r s n
  show ?thesis by (simp add: run_log_buy)
qed

text \<open>
  From the checkpoint 200, a run over the blocks 50 to 80 that yields a trade sets the
  checkpoint to 80.
\<close>

theorem checkpoint_can_decrease:
  "get_sync_state (store (indexer_on (db_rain 200))) = 200
   \<and> fst (run_indexer (world (Some [log_buy]) [gamma_rain] None) 50 80 None
            (indexer_on (db_rain 200))) = Inr [trade_buy]
   \<and> get_sync_state (store (snd (run_indexer (world (Some [log_buy]) [gamma_rain] None)
            50 80 None (indexer_on (db_rain 200))))) = 80
   \<and> get_sync_state (store (snd (run_indexer (world (Some [log_buy]) [gamma_rain] None)
            50 80 None (indexer_on (db_rain 200)))))
       < get_sync_state (store (indexer_on (db_rain 200)))"
  by (simp add: indexer_defs store_defs scenario_defs string_defs scenario_floats)

section \<open>Unresolved tokens\<close>

lemma run_indexer_batch:
  assumes "run_indexer e from_block to_block event_slug st = (Inr ts, st')"
      and "get_logs e from_block to_block = Some logs"
  shows "fst (process_logs e event_slug logs st) = ts"
  using assms
  by (cases "process_logs e event_slug logs st")
     (auto simp: run_indexer_def split: if_splits prod.splits sum.splits)











section \<open>The rows of \<open>markets\<close>\<close>

lemma map_filter_update_market:
  "List.map_filter condition_id (map (update_market md i) ms) = List.map_filter condition_id ms"
  by (induction ms) (simp_all add: List.map_filter_def update_market_def)

lemma find_none_not_stored:
  "find (\<lambda>m. condition_id m = Some c) ms = None \<Longrightarrow> c \<notin> set (List.map_filter condition_id ms)"
  by (induction ms) (auto simp: List.map_filter_def split: if_splits)

lemma map_filter_snoc:
  "List.map_filter f (xs @ [x]) =
     List.map_filter f xs @ (case f x of None \<Rightarrow> [] | Some y \<Rightarrow> [y])"
  by (simp add: List.map_filter_def split: option.splits)

lemma upsert_market_unique:
  assumes "condition_ids_unique (markets s)"
  shows "condition_ids_unique (markets (snd (upsert_market fault md s)))"
proof (cases "select_by_condition_id (markets s) (condition_id md)")
  case (Some result)
  with assms show ?thesis
    by (simp add: upsert_market_def condition_ids_unique_def map_filter_update_market)
next
  case None
  show ?thesis
  proof (cases "condition_id md")
    case n: None
    with None assms show ?thesis
      by (simp add: upsert_market_def condition_ids_unique_def map_filter_snoc new_market_def)
  next
    case (Some c)
    with None have "c \<notin> set (List.map_filter condition_id (markets s))"
      by (simp add: select_by_condition_id_def find_none_not_stored)
    with None Some assms show ?thesis
      by (simp add: upsert_market_def condition_ids_unique_def map_filter_snoc new_market_def)
  qed
qed

lemma store_markets_unique:
  "condition_ids_unique (markets s)
   \<Longrightarrow> condition_ids_unique (markets (snd (store_markets fault ms n s)))"
proof (induction ms arbitrary: n s)
  case Nil
  then show ?case by simp
next
  case (Cons a ms)
  show ?case
  proof (cases "process_market_data a")
    case None
    with Cons show ?thesis by simp
  next
    case (Some md)
    obtain r s1 where u: "upsert_market fault md s = (r, s1)"
      by (cases "upsert_market fault md s")
    with upsert_market_unique [OF Cons.prems, of fault md]
    have "condition_ids_unique (markets s1)" by simp
    with Some u Cons.IH [of s1 "n + 1"] show ?thesis
      by (cases r) (simp_all add: validate_market_tokens_def)
  qed
qed

text \<open>
  Claim C9, amended. A new database holds no two rows of \<open>markets\<close> with the same
  non-null \<open>condition_id\<close>, and \<open>upsert_market\<close> and \<open>discover_and_store_markets\<close> keep it
  so: a non-null \<open>condition_id\<close> identifies one market. The token ids are stored as
  discovery derives them: \<open>yes_token_id\<close> and \<open>no_token_id\<close> may be null or equal, and
  one token id may be stored for several markets.
\<close>

theorem upsert_keeps_condition_ids_unique:
  "condition_ids_unique (markets init_db)
   \<and> (condition_ids_unique (markets s) \<longrightarrow>
        condition_ids_unique (markets (snd (upsert_market fault md s)))
      \<and> condition_ids_unique (markets (snd (discover_and_store_markets e sl s))))"
  by (simp add: upsert_market_unique store_markets_unique discover_and_store_markets_def)
     (simp add: condition_ids_unique_def init_db_def List.map_filter_def)

theorem upsert_keeps_condition_ids_unique_witness:
  "condition_ids_unique (markets (db_rain 0))
   \<and> condition_ids_unique (markets (snd (discover_and_store_markets
        (world None [gamma_twin, gamma_maybe, gamma_rain] None) ''ev'' (db_rain 0))))
   \<and> map condition_id (markets (snd (discover_and_store_markets
        (world None [gamma_twin, gamma_maybe, gamma_rain] None) ''ev'' (db_rain 0))))
       = [Some ''0xabc'', Some ''0xa'', Some ''0xb'']"
proof -
  have h: "condition_ids_unique (markets (db_rain 0))"
    by (simp add: condition_ids_unique_def db_rain_def row_rain_def List.map_filter_def)
  have m: "map condition_id (markets (snd (discover_and_store_markets
        (world None [gamma_twin, gamma_maybe, gamma_rain] None) ''ev'' (db_rain 0))))
       = [Some ''0xabc'', Some ''0xa'', Some ''0xb'']"
    by (simp add: discovery_defs store_defs scenario_defs string_defs)
  from upsert_keeps_condition_ids_unique [of "db_rain 0" False
      "\<lparr>slug = None, condition_id = Some ''0xabc'', question_id = None,
        yes_token_id = None, no_token_id = None, status = None\<rparr>"
      "world None [gamma_twin, gamma_maybe, gamma_rain] None" "''ev''"] h m
  show ?thesis by simp
qed

text \<open>
  Discovery of an event with the markets \<open>gamma_twin\<close> and \<open>gamma_maybe\<close> stores a row
  whose two token ids are equal, a row without \<open>no_token_id\<close>, and the token \<open>0x7\<close> for
  both markets.
\<close>

theorem tokens_not_distinct:
  "map yes_token_id (markets (snd (discover_and_store_markets
        (world None [gamma_twin, gamma_maybe] None) ''ev'' init_db)))
     = [Some ''0x7'', Some ''0x7'']
   \<and> map no_token_id (markets (snd (discover_and_store_markets
        (world None [gamma_twin, gamma_maybe] None) ''ev'' init_db)))
     = [Some ''0x7'', None]
   \<and> map condition_id (markets (snd (discover_and_store_markets
        (world None [gamma_twin, gamma_maybe] None) ''ev'' init_db)))
     = [Some ''0xa'', Some ''0xb'']"
  by (simp add: discovery_defs store_defs scenario_defs string_defs)

end
